theory Spec2Isabelle
  imports Complex_Main "HOL-Library.Sublist" "HOL-Library.Char_ord" "HOL-Library.List_Lexorder"
    "HOL-Library.Option_ord"
begin

section \<open>The task scheduler of scripts/programador\_tareas.py\<close>

text \<open>
  A shallow embedding of \<^verbatim>\<open>TaskScheduler\<close>: the security check, the task store
  (the sqlite tables \<^verbatim>\<open>tasks\<close> and \<^verbatim>\<open>execution_logs\<close>), the executor
  \<^verbatim>\<open>_execute_task\<close>, the registration of TIME and INTERVAL triggers and the
  retention sweep \<^verbatim>\<open>cleanup_old_tasks\<close>.

  Conventions. A Python \<^verbatim>\<open>str\<close> is a \<open>string\<close>; a \<open>char\<close> stands for a code point
  below 256. Mutation of the \<^verbatim>\<open>Task\<close> object and of the database is explicit state
  passing. What the program does to the outside world (child processes, desktop
  notifications, statements sent to the store) is returned as a list of events. What
  the outside world answers (the outcome of a child process, the clock) is an argument.
  Calls of \<^verbatim>\<open>self.logger\<close> only write to the log file and are left out.
\<close>

subsection \<open>Enumerations and the Task dataclass\<close>

datatype TaskStatus = PENDING | RUNNING | COMPLETED | FAILED | CANCELLED

datatype TaskType = COMMAND | SCRIPT | NOTIFICATION | REMINDER

datatype TriggerType = TIME | INTERVAL | FILE_CHANGE | SYSTEM_EVENT

text \<open>
  \<^verbatim>\<open>trigger_data: Dict[str, Any]\<close>. The values the program reads are strings
  (\<^verbatim>\<open>"datetime"\<close>, \<^verbatim>\<open>"cron"\<close>) and integers (\<^verbatim>\<open>"seconds"\<close>, \<^verbatim>\<open>"minutes"\<close>,
  \<^verbatim>\<open>"hours"\<close>, \<^verbatim>\<open>"days"\<close>). The dict is an association list read with \<open>map_of\<close>.
\<close>

datatype tdval = TStr string | TInt int

type_synonym trigger_dict = "(string \<times> tdval) list"

text \<open>The fields \<^verbatim>\<open>id\<close> and \<^verbatim>\<open>output\<close> are called \<open>task_id\<close> and \<open>output_text\<close> here
  (\<open>id\<close> is the identity of HOL, \<open>output\<close> a keyword of Isabelle).\<close>

record Task =
  task_id :: "int option"
  name :: string
  description :: string
  task_type :: TaskType
  command :: string
  arguments :: "string list"
  working_dir :: string
  trigger_type :: TriggerType
  trigger_data :: trigger_dict
  status :: TaskStatus
  created_at :: string
  scheduled_for :: string
  executed_at :: string
  result_code :: int
  output_text :: string
  enabled :: bool
  notify_on_completion :: bool
  max_retries :: int
  retry_count :: int

text \<open>The dataclass defaults: \<^verbatim>\<open>Task()\<close>.\<close>

definition Task_default :: Task where
  "Task_default =
     \<lparr> task_id = None, name = [], description = [], task_type = COMMAND, command = [],
       arguments = [], working_dir = [], trigger_type = TIME, trigger_data = [],
       status = PENDING, created_at = [], scheduled_for = [], executed_at = [],
       result_code = 0, output_text = [], enabled = True, notify_on_completion = True,
       max_retries = 3, retry_count = 0 \<rparr>"

subsection \<open>Configuration\<close>

text \<open>
  The parts of \<^verbatim>\<open>self.config\<close> that the modelled functions read:
  \<^verbatim>\<open>config["security"]["allowed_commands"]\<close>, \<^verbatim>\<open>config["security"]["blocked_commands"]\<close>
  and \<^verbatim>\<open>config["notifications"]["notify_kde"]\<close>. The keys are taken to be present
  and the two lists to hold strings, as in \<^verbatim>\<open>config_default\<close>.
\<close>

record security_config =
  allowed_commands :: "string list"
  blocked_commands :: "string list"

record notifications_config =
  notify_kde :: bool

record config =
  security :: security_config
  notifications :: notifications_config

definition config_default :: config where
  "config_default =
     \<lparr> security =
         \<lparr> allowed_commands = [''echo'', ''notify-send'', ''kdialog'', ''python'', ''bash'', ''sh''],
           blocked_commands = [''rm -rf /'', ''dd if=/dev/random'', ''mkfs'', ''shutdown'', ''reboot''] \<rparr>,
       notifications = \<lparr> notify_kde = True \<rparr> \<rparr>"

subsection \<open>Python string operations\<close>

datatype py_error = IndexError

text \<open>\<^verbatim>\<open>sub in s\<close> on strings: \<open>sub\<close> starts at some position of \<open>s\<close>.\<close>

fun str_contains :: "string \<Rightarrow> string \<Rightarrow> bool" where
  "str_contains [] sub = (sub = [])"
| "str_contains (c # cs) sub = (prefix sub (c # cs) \<or> str_contains cs sub)"

text \<open>\<^verbatim>\<open>str.isspace\<close> on one code point below 256.\<close>

definition py_isspace :: "char \<Rightarrow> bool" where
  "py_isspace c =
     (let n = (of_char c :: nat)
      in (9 \<le> n \<and> n \<le> 13) \<or> (28 \<le> n \<and> n \<le> 32) \<or> n = 133 \<or> n = 160)"

text \<open>
  \<^verbatim>\<open>s.split()\<close>: the maximal runs of non-whitespace, in order. The second argument
  is the run being read.
\<close>

fun split_run :: "string \<Rightarrow> string \<Rightarrow> string list" where
  "split_run [] cur = (if cur = [] then [] else [cur])"
| "split_run (c # cs) cur =
     (if py_isspace c
      then (if cur = [] then split_run cs [] else cur # split_run cs [])
      else split_run cs (cur @ [c]))"

definition py_split :: "string \<Rightarrow> string list" where
  "py_split s = split_run s []"

subsection \<open>The security check\<close>

text \<open>
  The loop \<^verbatim>\<open>for blocked_cmd in blocked: if blocked_cmd in command: return False\<close>:
  the first blocked entry found in the command, if any.
\<close>

fun first_blocked :: "string list \<Rightarrow> string \<Rightarrow> string option" where
  "first_blocked [] cmd = None"
| "first_blocked (b # bs) cmd =
     (if str_contains cmd b then Some b else first_blocked bs cmd)"

text \<open>
  \<^verbatim>\<open>cmd_base = command.split()[0] if ' ' in command else command\<close>. A command of
  whitespace only that holds a space splits into the empty list, and the index raises.
\<close>

definition cmd_base :: "string \<Rightarrow> py_error + string" where
  "cmd_base cmd =
     (if CHR '' '' \<in> set cmd
      then (case py_split cmd of [] \<Rightarrow> Inl IndexError | tok # rest \<Rightarrow> Inr tok)
      else Inr cmd)"

definition check_command_security :: "config \<Rightarrow> string \<Rightarrow> py_error + bool" where
  "check_command_security cfg cmd =
     (let allowed = allowed_commands (security cfg);
          blocked = blocked_commands (security cfg)
      in case first_blocked blocked cmd of
           Some b \<Rightarrow> Inr False
         | None \<Rightarrow>
             (case cmd_base cmd of
                Inl e \<Rightarrow> Inl e
              | Inr base \<Rightarrow>
                  if allowed \<noteq> [] \<and> base \<notin> set allowed then Inr False else Inr True))"

subsection \<open>The task store\<close>

text \<open>
  One row of the table \<^verbatim>\<open>tasks\<close>, column by column. A column that the program
  leaves or reads as NULL is an \<open>option\<close>. The columns \<^verbatim>\<open>task_type\<close>,
  \<^verbatim>\<open>trigger_type\<close> and \<^verbatim>\<open>status\<close> hold the \<^verbatim>\<open>.value\<close> of an enumeration member
  and are given by the member. The columns \<^verbatim>\<open>arguments\<close> and \<^verbatim>\<open>trigger_data\<close> hold
  the text \<^verbatim>\<open>json.dumps\<close> made and are given by the value that \<^verbatim>\<open>json.loads\<close> reads
  back from it.
\<close>

record task_row =
  r_id :: int
  r_name :: string
  r_description :: string
  r_task_type :: TaskType
  r_command :: string
  r_arguments :: "string list option"
  r_working_dir :: string
  r_trigger_type :: TriggerType
  r_trigger_data :: "trigger_dict option"
  r_status :: TaskStatus
  r_created_at :: string
  r_scheduled_for :: string
  r_executed_at :: "string option"
  r_result_code :: "int option"
  r_output :: "string option"
  r_enabled :: int
  r_notify_on_completion :: int
  r_max_retries :: "int option"
  r_retry_count :: "int option"

text \<open>One row of the table \<^verbatim>\<open>execution_logs\<close>.\<close>

record log_row =
  l_id :: int
  l_task_id :: int
  l_execution_time :: string
  l_duration_seconds :: real
  l_result_code :: int
  l_output :: string

text \<open>
  The database file: the two tables in rowid order, and the AUTOINCREMENT counters
  of \<^verbatim>\<open>sqlite_sequence\<close>. \<open>store_ok\<close> says whether \<^verbatim>\<open>sqlite3.connect\<close> and the
  statements succeed; when they do not, each store function catches the exception.
\<close>

record db =
  store_ok :: bool
  tasks :: "task_row list"
  execution_logs :: "log_row list"
  tasks_seq :: int
  logs_seq :: int

definition db_empty :: db where
  "db_empty = \<lparr> store_ok = True, tasks = [], execution_logs = [], tasks_seq = 0, logs_seq = 0 \<rparr>"

text \<open>What the program does to the outside world.\<close>

datatype cmdline = Shell string | Argv "string list"

text \<open>
  A desktop notification, by its title, with the values its message is formatted
  from: the reminder's message; the task's name and the duration; the task's name and
  the result code; the task's name.
\<close>

datatype notice =
    Recordatorio string
  | Tarea_Completada string real
  | Tarea_Fallida string int
  | Tarea_Timeout string

text \<open>
  \<open>StoreTask t\<close>: \<^verbatim>\<open>_save_task_to_db\<close> executed its INSERT or UPDATE for the
  in-memory task \<open>t\<close>. \<open>SubprocessRun c cwd\<close>: \<^verbatim>\<open>subprocess.run\<close> was called for the
  task with command line \<open>c\<close>. \<open>Notify n\<close>: \<^verbatim>\<open>_send_notification\<close> ran kdialog.
\<close>

datatype event =
    StoreTask Task
  | SubprocessRun cmdline "string option"
  | Notify notice

text \<open>The next AUTOINCREMENT id: one more than every id ever used.\<close>

definition next_id :: "int \<Rightarrow> int list \<Rightarrow> int" where
  "next_id seq ids = fold max ids seq + 1"

text \<open>The row that the INSERT of \<^verbatim>\<open>_save_task_to_db\<close> writes: fifteen columns and the id.\<close>

definition insert_row :: "int \<Rightarrow> string \<Rightarrow> Task \<Rightarrow> task_row" where
  "insert_row new_id now task =
     \<lparr> r_id = new_id,
       r_name = name task,
       r_description = description task,
       r_task_type = task_type task,
       r_command = command task,
       r_arguments = Some (arguments task),
       r_working_dir = working_dir task,
       r_trigger_type = trigger_type task,
       r_trigger_data = Some (trigger_data task),
       r_status = status task,
       r_created_at = (if created_at task \<noteq> [] then created_at task else now),
       r_scheduled_for = scheduled_for task,
       r_executed_at = None,
       r_result_code = None,
       r_output = None,
       r_enabled = (if enabled task then 1 else 0),
       r_notify_on_completion = (if notify_on_completion task then 1 else 0),
       r_max_retries = Some (max_retries task),
       r_retry_count = Some (retry_count task) \<rparr>"

text \<open>The fourteen columns that the UPDATE of \<^verbatim>\<open>_save_task_to_db\<close> sets.\<close>

definition update_row :: "Task \<Rightarrow> task_row \<Rightarrow> task_row" where
  "update_row task r =
     r \<lparr> r_name := name task,
         r_description := description task,
         r_task_type := task_type task,
         r_command := command task,
         r_arguments := Some (arguments task),
         r_working_dir := working_dir task,
         r_trigger_type := trigger_type task,
         r_trigger_data := Some (trigger_data task),
         r_status := status task,
         r_scheduled_for := scheduled_for task,
         r_enabled := (if enabled task then 1 else 0),
         r_notify_on_completion := (if notify_on_completion task then 1 else 0),
         r_max_retries := Some (max_retries task),
         r_retry_count := Some (retry_count task) \<rparr>"

text \<open>
  \<^verbatim>\<open>_save_task_to_db(task)\<close>: the id returned (-1 on an exception), the task (its id
  assigned by an INSERT), the database and the events. \<open>now\<close> is
  \<^verbatim>\<open>datetime.now().isoformat()\<close>.
\<close>

definition save_task_to_db :: "string \<Rightarrow> Task \<Rightarrow> db \<Rightarrow> int \<times> Task \<times> db \<times> event list" where
  "save_task_to_db now task d =
     (if \<not> store_ok d then (- 1, task, d, [])
      else case task_id task of
        None \<Rightarrow>
          (let new_id = next_id (tasks_seq d) (map r_id (tasks d))
           in (new_id, task \<lparr> task_id := Some new_id \<rparr>,
               d \<lparr> tasks := tasks d @ [insert_row new_id now task], tasks_seq := new_id \<rparr>,
               [StoreTask task]))
      | Some i \<Rightarrow>
          (i, task,
           d \<lparr> tasks := map (\<lambda>r. if r_id r = i then update_row task r else r) (tasks d) \<rparr>,
           [StoreTask task]))"

text \<open>The Python idiom \<^verbatim>\<open>x if x else default\<close> on a nullable column.\<close>

definition int_or :: "int option \<Rightarrow> int \<Rightarrow> int" where
  "int_or v dflt = (case v of None \<Rightarrow> dflt | Some n \<Rightarrow> if n \<noteq> 0 then n else dflt)"

definition str_or :: "string option \<Rightarrow> string \<Rightarrow> string" where
  "str_or v dflt = (case v of None \<Rightarrow> dflt | Some s \<Rightarrow> if s \<noteq> [] then s else dflt)"

definition task_of_row :: "task_row \<Rightarrow> Task" where
  "task_of_row r =
     \<lparr> task_id = Some (r_id r),
       name = r_name r,
       description = r_description r,
       task_type = r_task_type r,
       command = r_command r,
       arguments = (case r_arguments r of None \<Rightarrow> [] | Some a \<Rightarrow> a),
       working_dir = r_working_dir r,
       trigger_type = r_trigger_type r,
       trigger_data = (case r_trigger_data r of None \<Rightarrow> [] | Some t \<Rightarrow> t),
       status = r_status r,
       created_at = r_created_at r,
       scheduled_for = r_scheduled_for r,
       executed_at = str_or (r_executed_at r) [],
       result_code = int_or (r_result_code r) 0,
       output_text = str_or (r_output r) [],
       enabled = (r_enabled r \<noteq> 0),
       notify_on_completion = (r_notify_on_completion r \<noteq> 0),
       max_retries = int_or (r_max_retries r) 3,
       retry_count = int_or (r_retry_count r) 0 \<rparr>"

text \<open>\<^verbatim>\<open>_load_task_from_db(task_id)\<close>: \<open>None\<close> when no row has the id, or on an exception.\<close>

definition load_task_from_db :: "int \<Rightarrow> db \<Rightarrow> Task option" where
  "load_task_from_db i d =
     (if \<not> store_ok d then None
      else case find (\<lambda>r. r_id r = i) (tasks d) of
        None \<Rightarrow> None
      | Some r \<Rightarrow> Some (task_of_row r))"

text \<open>
  \<^verbatim>\<open>_log_execution\<close>: one INSERT into \<^verbatim>\<open>execution_logs\<close>. The column \<^verbatim>\<open>task_id\<close> is
  NOT NULL, so for a task without id the INSERT raises, and the exception is caught.
\<close>

definition log_execution :: "int option \<Rightarrow> string \<Rightarrow> real \<Rightarrow> int \<Rightarrow> string \<Rightarrow> db \<Rightarrow> db" where
  "log_execution tid execution_time duration rc out d =
     (if \<not> store_ok d then d
      else case tid of
        None \<Rightarrow> d
      | Some i \<Rightarrow>
          (let new_id = next_id (logs_seq d) (map l_id (execution_logs d))
           in d \<lparr> execution_logs := execution_logs d @
                    [\<lparr> l_id = new_id, l_task_id = i, l_execution_time = execution_time,
                       l_duration_seconds = duration, l_result_code = rc, l_output = out \<rparr>],
                  logs_seq := new_id \<rparr>))"

subsection \<open>The executor\<close>

text \<open>
  What the outside world answers during one call of \<^verbatim>\<open>_execute_task\<close>: the outcome
  of the \<^verbatim>\<open>subprocess.run\<close> made for the task (it returns a code with the captured
  stdout and stderr, it raises \<^verbatim>\<open>TimeoutExpired\<close> after 300 seconds, or it raises
  another exception with the text \<^verbatim>\<open>str(e)\<close>), the two readings of \<^verbatim>\<open>time.time()\<close>,
  \<^verbatim>\<open>datetime.now().isoformat()\<close>, \<^verbatim>\<open>str(self.home)\<close> and \<^verbatim>\<open>sys.executable\<close>.
\<close>

datatype proc_result = Exited int string string | TimeoutExpired | Raised string

record exec_env =
  run_result :: proc_result
  start_time :: real
  end_time :: real
  now_iso :: string
  home :: string
  executable :: string

definition deny_text :: string where
  "deny_text = ''Comando bloqueado por seguridad''"

definition timeout_text :: string where
  "timeout_text = ''Timeout (5 minutos)''"

definition notification_sent_text :: string where
  "notification_sent_text = ''Notificaci'' @ [CHR 0xF3] @ ''n enviada''"

definition reminder_shown_text :: string where
  "reminder_shown_text = ''Recordatorio mostrado''"

definition send_notification :: "config \<Rightarrow> notice \<Rightarrow> event list" where
  "send_notification cfg n = (if notify_kde (notifications cfg) then [Notify n] else [])"

text \<open>\<^verbatim>\<open>" ".join(xs)\<close>\<close>

fun join_space :: "string list \<Rightarrow> string" where
  "join_space [] = []"
| "join_space [x] = x"
| "join_space (x # y # zs) = x @ '' '' @ join_space (y # zs)"

text \<open>\<^verbatim>\<open>full_cmd\<close>: the list when there are arguments, else the command string for the shell.\<close>

definition full_cmd :: "Task \<Rightarrow> cmdline" where
  "full_cmd task =
     (if arguments task \<noteq> [] then Argv (command task # arguments task)
      else Shell (command task))"

text \<open>
  \<^verbatim>\<open>script_path\<close>: the command when \<^verbatim>\<open>os.path.isabs\<close>, else
  \<^verbatim>\<open>os.path.join(working_dir, command)\<close> (POSIX).
\<close>

definition script_path :: "string \<Rightarrow> string \<Rightarrow> string" where
  "script_path wd cmd =
     (if prefix ''/'' cmd then cmd
      else if wd = [] \<or> suffix ''/'' wd then wd @ cmd
      else wd @ ''/'' @ cmd)"

text \<open>
  The body of the \<^verbatim>\<open>try\<close> up to the end of the branch on the task's kind: the task
  with its result and \<^verbatim>\<open>success\<close>, or the exception raised.
\<close>

datatype attempt = Finished Task bool | Timeout | Error string

definition of_run :: "Task \<Rightarrow> proc_result \<Rightarrow> attempt" where
  "of_run task res =
     (case res of
        Exited rc out err \<Rightarrow>
          Finished (task \<lparr> result_code := rc, output_text := out @ err \<rparr>) (rc = 0)
      | TimeoutExpired \<Rightarrow> Timeout
      | Raised e \<Rightarrow> Error e)"

text \<open>
  The two calls of the NOTIFICATION branch pass no timeout and ignore the return
  code: they return, or raise an exception other than \<^verbatim>\<open>TimeoutExpired\<close>.
\<close>

definition of_notification_run :: "Task \<Rightarrow> proc_result \<Rightarrow> attempt" where
  "of_notification_run task res =
     (case res of
        Raised e \<Rightarrow> Error e
      | _ \<Rightarrow> Finished (task \<lparr> result_code := 0, output_text := notification_sent_text \<rparr>) True)"

definition attempt_task :: "config \<Rightarrow> exec_env \<Rightarrow> Task \<Rightarrow> event list \<times> attempt" where
  "attempt_task cfg env task =
     (let wd = (if working_dir task \<noteq> [] then working_dir task else home env)
      in case task_type task of
        COMMAND \<Rightarrow>
          ([SubprocessRun (full_cmd task) (Some wd)], of_run task (run_result env))
      | SCRIPT \<Rightarrow>
          ([SubprocessRun
              (Argv ([executable env, script_path wd (command task)] @ arguments task))
              (Some wd)],
           of_run task (run_result env))
      | NOTIFICATION \<Rightarrow>
          if command task = ''kdialog''
          then ([SubprocessRun (Argv ([''kdialog'', ''--title'', name task] @ arguments task)) None],
                of_notification_run task (run_result env))
          else if command task = ''notify-send''
          then ([SubprocessRun (Argv ([''notify-send'', name task] @ arguments task)) None],
                of_notification_run task (run_result env))
          else ([], Finished (task \<lparr> result_code := 0, output_text := notification_sent_text \<rparr>) True)
      | REMINDER \<Rightarrow>
          (let message =
                 (if arguments task \<noteq> [] then command task @ '' '' @ join_space (arguments task)
                  else command task)
           in (send_notification cfg (Recordatorio message),
               Finished (task \<lparr> result_code := 0, output_text := reminder_shown_text \<rparr>) True)))"

text \<open>
  \<^verbatim>\<open>_execute_task(task)\<close>: the value returned, the task object as the call leaves it,
  the database and the events, in the order of the source. An \<^verbatim>\<open>IndexError\<close> of the
  security check is raised before the \<^verbatim>\<open>try\<close> and leaves the function.
\<close>

definition execute_task ::
  "config \<Rightarrow> exec_env \<Rightarrow> Task \<Rightarrow> db \<Rightarrow> py_error + (bool \<times> Task \<times> db \<times> event list)" where
  "execute_task cfg env task d =
     (if \<not> enabled task then Inr (False, task, d, [])
      else case check_command_security cfg (command task) of
        Inl e \<Rightarrow> Inl e
      | Inr permitted \<Rightarrow>
          if \<not> permitted
          then (let (i, task1, d1, ev1) =
                      save_task_to_db (now_iso env)
                        (task \<lparr> status := FAILED, output_text := deny_text \<rparr>) d
                in Inr (False, task1, d1, ev1))
          else
            (let (i, task1, d1, ev1) =
                   save_task_to_db (now_iso env) (task \<lparr> status := RUNNING \<rparr>) d;
                 (ev2, att) = attempt_task cfg env task1
             in case att of
               Finished task2 success \<Rightarrow>
                 (let duration = end_time env - start_time env;
                      task3 = task2 \<lparr> status := (if success then COMPLETED else FAILED),
                                      executed_at := now_iso env \<rparr>;
                      (j, task4, d2, ev3) = save_task_to_db (now_iso env) task3 d1;
                      d3 = log_execution (task_id task4) (executed_at task4) duration
                             (result_code task4) (take 1000 (output_text task4)) d2;
                      ev4 = (if success \<and> notify_on_completion task4
                             then send_notification cfg (Tarea_Completada (name task4) duration)
                             else if \<not> success
                             then send_notification cfg (Tarea_Fallida (name task4) (result_code task4))
                             else [])
                  in Inr (success, task4, d3, ev1 @ ev2 @ ev3 @ ev4))
             | Timeout \<Rightarrow>
                 (let task3 = task1 \<lparr> status := FAILED, output_text := timeout_text,
                                      executed_at := now_iso env \<rparr>;
                      (j, task4, d2, ev3) = save_task_to_db (now_iso env) task3 d1;
                      ev4 = send_notification cfg (Tarea_Timeout (name task4))
                  in Inr (False, task4, d2, ev1 @ ev2 @ ev3 @ ev4))
             | Error e \<Rightarrow>
                 (let task3 = task1 \<lparr> status := FAILED, output_text := e,
                                      executed_at := now_iso env \<rparr>;
                      (j, task4, d2, ev3) = save_task_to_db (now_iso env) task3 d1
                  in Inr (False, task4, d2, ev1 @ ev2 @ ev3))))"

subsection \<open>Triggers\<close>

text \<open>
  Clock readings (\<^verbatim>\<open>datetime.now()\<close>) and periods are integers, in microseconds. The
  program registers its triggers with the package \<^verbatim>\<open>schedule\<close>, which it imports and
  which is not among the repository's files; the five definitions that stand for the
  package say so.
\<close>

text \<open>
  Modelled from the spec: a job of the registry of \<^verbatim>\<open>schedule\<close> (the package is
  missing). The spec, of the INTERVAL trigger that the program registers this way: it
  fires every N units starting from registration time. A job has its period, the time it
  is due next, and the task object that its function closes over.
\<close>

record job =
  j_period :: int
  j_next_run :: int
  j_task :: Task

text \<open>
  Modelled from the spec: \<^verbatim>\<open>schedule.every(n).<unit>.do(job)\<close> at the clock \<open>now\<close>,
  for a period of n units (the package is missing). The job is first due one period
  after registration.
\<close>

definition every_do :: "int \<Rightarrow> int \<Rightarrow> Task \<Rightarrow> job list \<Rightarrow> job list" where
  "every_do period now task js =
     js @ [\<lparr> j_period = period, j_next_run = now + period, j_task = task \<rparr>]"

text \<open>
  Modelled from the spec: the jobs with the given indices run one after the other, and
  each is re-armed after its firing, one period from the tick (the package is missing).
  \<open>f\<close> is the job function on the task and the state of the program; an exception of
  \<open>f\<close> leaves the tick. The result: the exception if any, the indices of the jobs that
  ran, the registry, the state. The indices are those of \<open>due\<close>, all in range.
\<close>

fun run_jobs ::
  "(Task \<Rightarrow> 's \<Rightarrow> py_error + (Task \<times> 's)) \<Rightarrow> int \<Rightarrow> nat list \<Rightarrow> job list \<Rightarrow> 's
     \<Rightarrow> py_error option \<times> nat list \<times> job list \<times> 's" where
  "run_jobs f now [] js s = (None, [], js, s)"
| "run_jobs f now (i # rest) js s =
     (case f (j_task (js ! i)) s of
        Inl e \<Rightarrow> (Some e, [], js, s)
      | Inr (task', s') \<Rightarrow>
          (let js' = js [i := (js ! i) \<lparr> j_task := task', j_next_run := now + j_period (js ! i) \<rparr>];
               (err, fired, js'', s'') = run_jobs f now rest js' s'
           in (err, i # fired, js'', s'')))"

text \<open>
  Modelled from the spec: the jobs that are due at a tick, in dispatch order (the
  package is missing). The spec: when several tasks are due on the same tick, dispatch
  order is ascending task id.
\<close>

definition due :: "int \<Rightarrow> job list \<Rightarrow> nat list" where
  "due now js =
     sort_key (\<lambda>i. task_id (j_task (js ! i)))
       (filter (\<lambda>i. j_next_run (js ! i) \<le> now) [0 ..< length js])"

text \<open>
  Modelled from the spec: \<^verbatim>\<open>schedule.run_pending()\<close> at the clock \<open>now\<close> (the package
  is missing): the due jobs run.
\<close>

definition run_pending ::
  "(Task \<Rightarrow> 's \<Rightarrow> py_error + (Task \<times> 's)) \<Rightarrow> int \<Rightarrow> job list \<Rightarrow> 's
     \<Rightarrow> py_error option \<times> nat list \<times> job list \<times> 's" where
  "run_pending f now js s = run_jobs f now (due now js) js s"

text \<open>
  \<^verbatim>\<open>_schedule_time_trigger(task)\<close>. \<open>fromisoformat\<close> is \<^verbatim>\<open>datetime.fromisoformat\<close>,
  \<open>None\<close> where it raises; every exception in the function is caught and logged. The
  branch for \<^verbatim>\<open>"cron"\<close> is \<^verbatim>\<open>pass\<close>. The tag of the job is left out: nothing reads it.
\<close>

definition schedule_time_trigger ::
  "(string \<Rightarrow> int option) \<Rightarrow> int \<Rightarrow> Task \<Rightarrow> job list \<Rightarrow> job list" where
  "schedule_time_trigger fromisoformat now task js =
     (case map_of (trigger_data task) ''datetime'' of
        Some v \<Rightarrow>
          (case v of
             TStr text \<Rightarrow>
               (case fromisoformat text of
                  None \<Rightarrow> js
                | Some scheduled_time \<Rightarrow>
                    if scheduled_time > now
                    then (let delay = scheduled_time - now in every_do delay now task js)
                    else js)
           | TInt n \<Rightarrow> js)
      | None \<Rightarrow> js)"

text \<open>\<^verbatim>\<open>schedule.every(v).<unit>.do(...)\<close> for a value of \<^verbatim>\<open>trigger_data\<close>; a value
  that is not a number raises in the package, and the exception is caught.\<close>

definition every_unit_do :: "int \<Rightarrow> tdval \<Rightarrow> int \<Rightarrow> Task \<Rightarrow> job list \<Rightarrow> job list" where
  "every_unit_do unit_us v now task js =
     (case v of TInt n \<Rightarrow> every_do (n * unit_us) now task js | TStr text \<Rightarrow> js)"

definition schedule_interval_trigger :: "int \<Rightarrow> Task \<Rightarrow> job list \<Rightarrow> job list" where
  "schedule_interval_trigger now task js =
     (let td = map_of (trigger_data task)
      in case td ''seconds'' of
        Some v \<Rightarrow> every_unit_do 1000000 v now task js
      | None \<Rightarrow>
          (case td ''minutes'' of
             Some v \<Rightarrow> every_unit_do 60000000 v now task js
           | None \<Rightarrow>
               (case td ''hours'' of
                  Some v \<Rightarrow> every_unit_do 3600000000 v now task js
                | None \<Rightarrow>
                    (case td ''days'' of
                       Some v \<Rightarrow> every_unit_do 86400000000 v now task js
                     | None \<Rightarrow> js))))"

text \<open>
  \<^verbatim>\<open>schedule_task(task)\<close>: the value returned, the task, the database, the registry
  and the events. \<open>now_text\<close> and \<open>now\<close> are the clock as text and as a number.
\<close>

definition schedule_task ::
  "(string \<Rightarrow> int option) \<Rightarrow> string \<Rightarrow> int \<Rightarrow> Task \<Rightarrow> db \<Rightarrow> job list
     \<Rightarrow> bool \<times> Task \<times> db \<times> job list \<times> event list" where
  "schedule_task fromisoformat now_text now task d js =
     (let (i, task1, d1, ev) = save_task_to_db now_text task d
      in if i = - 1 then (False, task1, d1, js, ev)
         else
           (let task2 = task1 \<lparr> task_id := Some i \<rparr>;
                js' = (case trigger_type task2 of
                         TIME \<Rightarrow> schedule_time_trigger fromisoformat now task2 js
                       | INTERVAL \<Rightarrow> schedule_interval_trigger now task2 js
                       | FILE_CHANGE \<Rightarrow> js
                       | SYSTEM_EVENT \<Rightarrow> js)
            in (True, task2, d1, js', ev)))"

text \<open>
  One tick of \<^verbatim>\<open>scheduler_loop\<close>: \<^verbatim>\<open>schedule.run_pending()\<close> inside its
  \<^verbatim>\<open>try\<close>, with the job function \<^verbatim>\<open>self._execute_task(task)\<close>. The state is the
  database and the events so far; \<open>envs\<close> gives what the outside world answers to the
  execution of a task.
\<close>

definition job_function ::
  "config \<Rightarrow> (Task \<Rightarrow> exec_env) \<Rightarrow> Task \<Rightarrow> db \<times> event list
     \<Rightarrow> py_error + (Task \<times> (db \<times> event list))" where
  "job_function cfg envs task s =
     (case execute_task cfg (envs task) task (fst s) of
        Inl e \<Rightarrow> Inl e
      | Inr (ok, task', d', evs) \<Rightarrow> Inr (task', (d', snd s @ evs)))"

definition tick ::
  "config \<Rightarrow> (Task \<Rightarrow> exec_env) \<Rightarrow> int \<Rightarrow> job list \<Rightarrow> db \<times> event list
     \<Rightarrow> py_error option \<times> nat list \<times> job list \<times> (db \<times> event list)" where
  "tick cfg envs now js s = run_pending (job_function cfg envs) now js s"

subsection \<open>The retention sweep\<close>

text \<open>
  \<^verbatim>\<open>DELETE FROM t WHERE p\<close>: the rows that stay, in order, and \<^verbatim>\<open>cursor.rowcount\<close>.
\<close>

fun sql_delete :: "('r \<Rightarrow> bool) \<Rightarrow> 'r list \<Rightarrow> 'r list \<times> nat" where
  "sql_delete p [] = ([], 0)"
| "sql_delete p (r # rs) =
     (let (kept, n) = sql_delete p rs
      in if p r then (kept, Suc n) else (r # kept, n))"

text \<open>
  The two WHERE clauses. A comparison of TEXT values is the order of strings; a
  comparison with NULL is not true.
\<close>

definition old_log :: "string \<Rightarrow> log_row \<Rightarrow> bool" where
  "old_log cutoff_date l = (l_execution_time l < cutoff_date)"

definition old_task :: "string \<Rightarrow> task_row \<Rightarrow> bool" where
  "old_task cutoff_date r =
     ((r_status r = COMPLETED \<or> r_status r = FAILED \<or> r_status r = CANCELLED)
      \<and> (case r_executed_at r of None \<Rightarrow> False | Some e \<Rightarrow> e < cutoff_date))"

text \<open>
  \<^verbatim>\<open>cleanup_old_tasks()\<close>, given \<^verbatim>\<open>cutoff_date\<close>. The Python function returns
  nothing. The second component is its local variable \<^verbatim>\<open>deleted\<close>, which it writes to
  the log when positive: \<^verbatim>\<open>cursor.rowcount\<close> after the second DELETE; \<open>None\<close> when an
  exception left the \<^verbatim>\<open>try\<close> before the assignment.
\<close>

definition cleanup_old_tasks :: "string \<Rightarrow> db \<Rightarrow> db \<times> nat option" where
  "cleanup_old_tasks cutoff_date d =
     (if \<not> store_ok d then (d, None)
      else
        (let (logs', n_logs) = sql_delete (old_log cutoff_date) (execution_logs d);
             (tasks', deleted) = sql_delete (old_task cutoff_date) (tasks d)
         in (d \<lparr> tasks := tasks', execution_logs := logs' \<rparr>, Some deleted)))"

subsection \<open>Observations\<close>

text \<open>Whether an event is a statement of \<^verbatim>\<open>_save_task_to_db\<close>.\<close>

definition is_store :: "event \<Rightarrow> bool" where
  "is_store e = (case e of StoreTask t \<Rightarrow> True | _ \<Rightarrow> False)"

text \<open>The three columns of a row of \<^verbatim>\<open>tasks\<close> that hold the result of an execution.\<close>

definition result_columns :: "task_row \<Rightarrow> string option \<times> int option \<times> string option" where
  "result_columns r = (r_executed_at r, r_result_code r, r_output r)"

text \<open>Whether an event is a call of \<^verbatim>\<open>subprocess.run\<close> for a task.\<close>

definition is_subprocess :: "event \<Rightarrow> bool" where
  "is_subprocess e = (case e of SubprocessRun c w \<Rightarrow> True | _ \<Rightarrow> False)"

text \<open>
  The invariant of the spec's data model, as the spec words it: executed-at is set if
  and only if the status is RUNNING, COMPLETED or FAILED.
\<close>

definition executed_at_rule :: "Task \<Rightarrow> bool" where
  "executed_at_rule t =
     ((executed_at t \<noteq> []) = (status t = RUNNING \<or> status t = COMPLETED \<or> status t = FAILED))"

subsection \<open>Example inputs\<close>

definition example_env :: exec_env where
  "example_env =
     \<lparr> run_result = Exited 0 ''ok'' [], start_time = 0, end_time = 1,
       now_iso = ''2024-05-01T12:00:00'', home = ''/home/user'',
       executable = ''/usr/bin/python3'' \<rparr>"

definition example_task :: Task where
  "example_task = Task_default \<lparr> name := ''saludo'', command := ''echo'', arguments := [''ok''] \<rparr>"

definition example_reminder :: Task where
  "example_reminder =
     Task_default \<lparr> name := ''compra'', task_type := REMINDER, command := ''Comprar leche'' \<rparr>"

text \<open>
  The database after \<^verbatim>\<open>schedule_task\<close> stored a new task in the empty database, as
  row 1, and the task object with its id.
\<close>

definition stored_db :: "Task \<Rightarrow> db" where
  "stored_db task =
     \<lparr> store_ok = True, tasks = [insert_row 1 ''2024-05-01T11:59:00'' task],
       execution_logs = [], tasks_seq = 1, logs_seq = 0 \<rparr>"

definition stored_task :: "Task \<Rightarrow> Task" where
  "stored_task task = task \<lparr> task_id := Some 1 \<rparr>"

definition example_blocked :: Task where
  "example_blocked =
     Task_default \<lparr> name := ''apagar'', command := ''shutdown'', arguments := [''now''] \<rparr>"

definition example_env_timeout :: exec_env where
  "example_env_timeout = example_env \<lparr> run_result := TimeoutExpired \<rparr>"

text \<open>The database after the stored example task ran and completed.\<close>

definition example_done_db :: db where
  "example_done_db =
     stored_db (example_task \<lparr> status := COMPLETED \<rparr>)
       \<lparr> execution_logs :=
           [\<lparr> l_id = 1, l_task_id = 1, l_execution_time = ''2024-05-01T12:00:00'',
              l_duration_seconds = 1, l_result_code = 0, l_output = ''ok'' \<rparr>],
         logs_seq := 1 \<rparr>"

text \<open>
  A database for the sweep: four rows of \<^verbatim>\<open>tasks\<close> that differ in status and
  executed-at, and two rows of \<^verbatim>\<open>execution_logs\<close>. (The program itself never
  writes the column \<^verbatim>\<open>executed_at\<close>; three of the rows have it from elsewhere.)
\<close>

definition sweep_row :: "int \<Rightarrow> TaskStatus \<Rightarrow> string option \<Rightarrow> task_row" where
  "sweep_row i st ex =
     (insert_row i ''2024-01-01T00:00:00'' (example_task \<lparr> status := st \<rparr>))
       \<lparr> r_executed_at := ex \<rparr>"

definition sweep_log :: "int \<Rightarrow> string \<Rightarrow> log_row" where
  "sweep_log i ts =
     \<lparr> l_id = i, l_task_id = 1, l_execution_time = ts, l_duration_seconds = 1,
       l_result_code = 0, l_output = ''ok'' \<rparr>"

definition example_sweep_db :: db where
  "example_sweep_db =
     \<lparr> store_ok = True,
       tasks = [sweep_row 1 COMPLETED (Some ''2024-01-05T08:00:00''),
                sweep_row 2 PENDING (Some ''2024-01-05T08:00:00''),
                sweep_row 3 FAILED (Some ''2024-05-01T12:00:00''),
                sweep_row 4 CANCELLED None],
       execution_logs = [sweep_log 1 ''2024-01-05T08:00:00'', sweep_log 2 ''2024-05-01T12:00:00''],
       tasks_seq = 4, logs_seq = 2 \<rparr>"

definition example_no_retry :: Task where
  "example_no_retry = example_task \<lparr> max_retries := 0 \<rparr>"

text \<open>
  \<^verbatim>\<open>datetime.fromisoformat\<close> on the two texts of the examples, in microseconds from
  2024-05-01T11:59:00, the clock at which the examples register their tasks.
\<close>

definition example_fromisoformat :: "string \<Rightarrow> int option" where
  "example_fromisoformat text =
     (if text = ''2024-05-01T12:00:00'' then Some 60000000
      else if text = ''2024-05-01T11:00:00'' then Some (- 3540000000)
      else None)"

definition example_time_task :: Task where
  "example_time_task =
     example_task \<lparr> trigger_type := TIME,
                    trigger_data := [(''datetime'', TStr ''2024-05-01T12:00:00'')],
                    scheduled_for := ''2024-05-01T12:00:00'' \<rparr>"

definition example_past_task :: Task where
  "example_past_task =
     example_task \<lparr> trigger_type := TIME,
                    trigger_data := [(''datetime'', TStr ''2024-05-01T11:00:00'')],
                    scheduled_for := ''2024-05-01T11:00:00'' \<rparr>"

text \<open>The outside world answers every execution as in the example environment.\<close>

definition example_envs :: "Task \<Rightarrow> exec_env" where
  "example_envs t = example_env"

section \<open>Properties\<close>

subsection \<open>Strings\<close>

lemma str_contains_sublist: "str_contains s sub \<longleftrightarrow> sublist sub s"
  by (induction s) (auto simp: sublist_Cons_right)

lemma str_contains_append: "str_contains (ps @ sub @ ss) sub"
  by (simp add: str_contains_sublist)

lemma first_blocked_None: "first_blocked bs cmd = None \<longleftrightarrow> (\<forall>b \<in> set bs. \<not> str_contains cmd b)"
  by (induction bs) auto

subsection \<open>The security check\<close>

text \<open>
  C1. For every configuration and every command: when an entry of the blocked list
  occurs anywhere in the command (the command is \<open>ps @ b @ ss\<close>), the check returns
  \<^verbatim>\<open>False\<close>, whatever the allow-list holds. The blocked entries are tried before the
  allow-list is read.
\<close>

theorem blocked_substring_denied:
  assumes "b \<in> set (blocked_commands (security cfg))"
    and "cmd = ps @ b @ ss"
  shows "check_command_security cfg cmd = Inr False"
proof -
  have "str_contains cmd b"
    using assms(2) by (simp add: str_contains_append)
  with assms(1) have "first_blocked (blocked_commands (security cfg)) cmd \<noteq> None"
    by (auto simp: first_blocked_None)
  then show ?thesis
    by (auto simp: check_command_security_def)
qed

theorem blocked_substring_denied_witness:
  "''shutdown'' \<in> set (blocked_commands (security config_default))
   \<and> ''echo bye; shutdown now'' = ''echo bye; '' @ ''shutdown'' @ '' now''
   \<and> cmd_base ''echo bye; shutdown now'' = Inr ''echo''
   \<and> ''echo'' \<in> set (allowed_commands (security config_default))
   \<and> check_command_security config_default ''echo bye; shutdown now'' = Inr False"
  using blocked_substring_denied [of "''shutdown''" config_default
      "''echo bye; shutdown now''" "''echo bye; ''" "'' now''"]
  by (simp add: config_default_def cmd_base_def py_split_def py_isspace_def)


subsection \<open>The store and the executor, branch by branch\<close>

lemma save_task_to_db_events:
  "save_task_to_db now task d = (i, t1, d1, evs) \<Longrightarrow>
     evs = (if store_ok d then [StoreTask task] else [])"
  by (auto simp: save_task_to_db_def Let_def split: if_splits option.splits)

lemma save_task_to_db_task:
  "save_task_to_db now task d = (i, t1, d1, evs) \<Longrightarrow>
     t1 = task \<or> (task_id task = None \<and> store_ok d \<and> t1 = task \<lparr> task_id := Some i \<rparr>)"
  by (auto simp: save_task_to_db_def Let_def split: if_splits option.splits)

lemma save_task_to_db_logs:
  "save_task_to_db now task d = (i, t1, d1, evs) \<Longrightarrow>
     execution_logs d1 = execution_logs d \<and> store_ok d1 = store_ok d \<and> logs_seq d1 = logs_seq d"
  by (auto simp: save_task_to_db_def Let_def split: if_splits option.splits)

lemma execute_task_disabled:
  "\<not> enabled task \<Longrightarrow> execute_task cfg env task d = Inr (False, task, d, [])"
  by (simp add: execute_task_def)

lemma execute_task_raises:
  "enabled task \<Longrightarrow> check_command_security cfg (command task) = Inl e \<Longrightarrow>
     execute_task cfg env task d = Inl e"
  by (simp add: execute_task_def)

lemma execute_task_denied:
  "enabled task \<Longrightarrow> check_command_security cfg (command task) = Inr False \<Longrightarrow>
     execute_task cfg env task d =
       (case save_task_to_db (now_iso env) (task \<lparr> status := FAILED, output_text := deny_text \<rparr>) d
        of (i, task1, d1, ev1) \<Rightarrow> Inr (False, task1, d1, ev1))"
  by (simp add: execute_task_def split: prod.splits)

lemma save_task_to_db_result_columns:
  assumes "save_task_to_db now task d = (i, t1, d1, evs)"
  shows "map result_columns (tasks d1) =
           map result_columns (tasks d) @
             (if store_ok d \<and> task_id task = None then [(None, None, None)] else [])"
  using assms
  by (auto simp: save_task_to_db_def Let_def result_columns_def insert_row_def update_row_def
           split: if_splits option.splits)

lemma log_execution_tasks: "tasks (log_execution tid ts dur rc out d) = tasks d"
  by (simp add: log_execution_def Let_def split: option.splits)

lemma log_execution_logs:
  "length (execution_logs (log_execution tid ts dur rc out d)) =
     length (execution_logs d) + (if store_ok d \<and> tid \<noteq> None then 1 else 0)"
  by (simp add: log_execution_def Let_def split: option.splits)

lemma attempt_task_no_store:
  "attempt_task cfg env task = (evs, att) \<Longrightarrow> e \<in> set evs \<Longrightarrow> \<not> is_store e"
  by (auto simp: attempt_task_def Let_def send_notification_def is_store_def
           split: TaskType.splits if_splits)

lemma attempt_task_Finished:
  "attempt_task cfg env task = (evs, Finished task2 success) \<Longrightarrow>
     task2 = task \<lparr> result_code := result_code task2, output_text := output_text task2 \<rparr>"
  by (auto simp: attempt_task_def Let_def of_run_def of_notification_run_def
           split: TaskType.splits if_splits proc_result.splits)

lemma attempt_task_Timeout:
  "snd (attempt_task cfg env task) = Timeout \<longleftrightarrow>
     (task_type task = COMMAND \<or> task_type task = SCRIPT) \<and> run_result env = TimeoutExpired"
  by (auto simp: attempt_task_def Let_def of_run_def of_notification_run_def
           split: TaskType.splits if_splits proc_result.splits)

lemma execute_task_finished:
  assumes "enabled task" and "check_command_security cfg (command task) = Inr True"
    and "save_task_to_db (now_iso env) (task \<lparr> status := RUNNING \<rparr>) d = (i, task1, d1, ev1)"
    and "attempt_task cfg env task1 = (ev2, Finished task2 success)"
    and "save_task_to_db (now_iso env)
           (task2 \<lparr> status := (if success then COMPLETED else FAILED), executed_at := now_iso env \<rparr>) d1
         = (j, task4, d2, ev3)"
  shows "execute_task cfg env task d =
           Inr (success, task4,
                log_execution (task_id task4) (executed_at task4) (end_time env - start_time env)
                  (result_code task4) (take 1000 (output_text task4)) d2,
                ev1 @ ev2 @ ev3 @
                (if success \<and> notify_on_completion task4
                 then send_notification cfg (Tarea_Completada (name task4) (end_time env - start_time env))
                 else if \<not> success
                 then send_notification cfg (Tarea_Fallida (name task4) (result_code task4))
                 else []))"
  using assms by (simp add: execute_task_def Let_def)

lemma execute_task_timeout:
  assumes "enabled task" and "check_command_security cfg (command task) = Inr True"
    and "save_task_to_db (now_iso env) (task \<lparr> status := RUNNING \<rparr>) d = (i, task1, d1, ev1)"
    and "attempt_task cfg env task1 = (ev2, Timeout)"
    and "save_task_to_db (now_iso env)
           (task1 \<lparr> status := FAILED, output_text := timeout_text, executed_at := now_iso env \<rparr>) d1
         = (j, task4, d2, ev3)"
  shows "execute_task cfg env task d =
           Inr (False, task4, d2,
                ev1 @ ev2 @ ev3 @ send_notification cfg (Tarea_Timeout (name task4)))"
  using assms by (simp add: execute_task_def Let_def)

lemma execute_task_error:
  assumes "enabled task" and "check_command_security cfg (command task) = Inr True"
    and "save_task_to_db (now_iso env) (task \<lparr> status := RUNNING \<rparr>) d = (i, task1, d1, ev1)"
    and "attempt_task cfg env task1 = (ev2, Error e)"
    and "save_task_to_db (now_iso env)
           (task1 \<lparr> status := FAILED, output_text := e, executed_at := now_iso env \<rparr>) d1
         = (j, task4, d2, ev3)"
  shows "execute_task cfg env task d = Inr (False, task4, d2, ev1 @ ev2 @ ev3)"
  using assms by (simp add: execute_task_def Let_def)

lemma execute_task_cases [consumes 1, case_names disabled denied finished timeout error]:
  assumes run: "execute_task cfg env task d = Inr (ok, t', d', evs)"
  obtains
    "\<not> enabled task" "\<not> ok" "t' = task" "d' = d" "evs = []"
  | i where "enabled task" "check_command_security cfg (command task) = Inr False" "\<not> ok"
      "save_task_to_db (now_iso env) (task \<lparr> status := FAILED, output_text := deny_text \<rparr>) d
         = (i, t', d', evs)"
  | i task1 d1 ev1 ev2 task2 j d2 ev3 where
      "enabled task" "check_command_security cfg (command task) = Inr True"
      "save_task_to_db (now_iso env) (task \<lparr> status := RUNNING \<rparr>) d = (i, task1, d1, ev1)"
      "attempt_task cfg env task1 = (ev2, Finished task2 ok)"
      "save_task_to_db (now_iso env)
         (task2 \<lparr> status := (if ok then COMPLETED else FAILED), executed_at := now_iso env \<rparr>) d1
       = (j, t', d2, ev3)"
      "d' = log_execution (task_id t') (executed_at t') (end_time env - start_time env)
              (result_code t') (take 1000 (output_text t')) d2"
      "evs = ev1 @ ev2 @ ev3 @
         (if ok \<and> notify_on_completion t'
          then send_notification cfg (Tarea_Completada (name t') (end_time env - start_time env))
          else if \<not> ok then send_notification cfg (Tarea_Fallida (name t') (result_code t'))
          else [])"
  | i task1 d1 ev1 ev2 j ev3 where
      "enabled task" "check_command_security cfg (command task) = Inr True" "\<not> ok"
      "save_task_to_db (now_iso env) (task \<lparr> status := RUNNING \<rparr>) d = (i, task1, d1, ev1)"
      "attempt_task cfg env task1 = (ev2, Timeout)"
      "save_task_to_db (now_iso env)
         (task1 \<lparr> status := FAILED, output_text := timeout_text, executed_at := now_iso env \<rparr>) d1
       = (j, t', d', ev3)"
      "evs = ev1 @ ev2 @ ev3 @ send_notification cfg (Tarea_Timeout (name t'))"
  | i task1 d1 ev1 ev2 e j ev3 where
      "enabled task" "check_command_security cfg (command task) = Inr True" "\<not> ok"
      "save_task_to_db (now_iso env) (task \<lparr> status := RUNNING \<rparr>) d = (i, task1, d1, ev1)"
      "attempt_task cfg env task1 = (ev2, Error e)"
      "save_task_to_db (now_iso env)
         (task1 \<lparr> status := FAILED, output_text := e, executed_at := now_iso env \<rparr>) d1
       = (j, t', d', ev3)"
      "evs = ev1 @ ev2 @ ev3"
proof (cases "enabled task")
  case False
  with run have "\<not> ok \<and> t' = task \<and> d' = d \<and> evs = []"
    by (simp add: execute_task_disabled)
  with False that(1) show ?thesis
    by blast
next
  case en: True
  show ?thesis
  proof (cases "check_command_security cfg (command task)")
    case (Inl e)
    with run en show ?thesis
      by (simp add: execute_task_raises)
  next
    case (Inr permitted)
    show ?thesis
    proof (cases permitted)
      case False
      with Inr have chk: "check_command_security cfg (command task) = Inr False"
        by simp
      obtain i t1 d1 ev1 where
        s: "save_task_to_db (now_iso env) (task \<lparr> status := FAILED, output_text := deny_text \<rparr>) d
              = (i, t1, d1, ev1)"
        by (metis prod_cases4)
      with run en chk have "\<not> ok \<and> t' = t1 \<and> d' = d1 \<and> evs = ev1"
        by (simp add: execute_task_denied)
      with s en chk that(2) show ?thesis
        by blast
    next
      case True
      with Inr have chk: "check_command_security cfg (command task) = Inr True"
        by simp
      obtain i task1 d1 ev1 where
        s1: "save_task_to_db (now_iso env) (task \<lparr> status := RUNNING \<rparr>) d = (i, task1, d1, ev1)"
        by (metis prod_cases4)
      obtain ev2 att where a: "attempt_task cfg env task1 = (ev2, att)"
        by (metis prod.exhaust)
      show ?thesis
      proof (cases att)
        case (Finished task2 success)
        obtain j task4 d2 ev3 where
          s2: "save_task_to_db (now_iso env)
                 (task2 \<lparr> status := (if success then COMPLETED else FAILED),
                          executed_at := now_iso env \<rparr>) d1 = (j, task4, d2, ev3)"
          by (metis prod_cases4)
        from a Finished have a': "attempt_task cfg env task1 = (ev2, Finished task2 success)"
          by simp
        define D where
          "D = log_execution (task_id task4) (executed_at task4)
                 (end_time env - start_time env) (result_code task4)
                 (take 1000 (output_text task4)) d2"
        define E where
          "E = ev1 @ ev2 @ ev3 @
             (if success \<and> notify_on_completion task4
              then send_notification cfg
                     (Tarea_Completada (name task4) (end_time env - start_time env))
              else if \<not> success
              then send_notification cfg (Tarea_Fallida (name task4) (result_code task4))
              else [])"
        have "execute_task cfg env task d = Inr (success, task4, D, E)"
          unfolding D_def E_def by (rule execute_task_finished [OF en chk s1 a' s2])
        with run have eqs: "success = ok" "task4 = t'" "D = d'" "E = evs"
          by simp_all
        show ?thesis
        proof (rule that(3) [OF en chk s1])
          show "attempt_task cfg env task1 = (ev2, Finished task2 ok)"
            using a' eqs(1) by simp
          show "save_task_to_db (now_iso env)
                  (task2 \<lparr> status := (if ok then COMPLETED else FAILED),
                           executed_at := now_iso env \<rparr>) d1 = (j, t', d2, ev3)"
            using s2 eqs(1,2) by simp
          show "d' = log_execution (task_id t') (executed_at t') (end_time env - start_time env)
                       (result_code t') (take 1000 (output_text t')) d2"
            using eqs(2,3) by (simp add: D_def)
          show "evs = ev1 @ ev2 @ ev3 @
                  (if ok \<and> notify_on_completion t'
                   then send_notification cfg
                          (Tarea_Completada (name t') (end_time env - start_time env))
                   else if \<not> ok
                   then send_notification cfg (Tarea_Fallida (name t') (result_code t'))
                   else [])"
            using eqs(1,2,4) by (auto simp: E_def)
        qed
      next
        case Timeout
        obtain j task4 d2 ev3 where
          s2: "save_task_to_db (now_iso env)
                 (task1 \<lparr> status := FAILED, output_text := timeout_text,
                          executed_at := now_iso env \<rparr>) d1 = (j, task4, d2, ev3)"
          by (metis prod_cases4)
        from a Timeout have a': "attempt_task cfg env task1 = (ev2, Timeout)"
          by simp
        define E where
          "E = ev1 @ ev2 @ ev3 @ send_notification cfg (Tarea_Timeout (name task4))"
        have "execute_task cfg env task d = Inr (False, task4, d2, E)"
          unfolding E_def by (rule execute_task_timeout [OF en chk s1 a' s2])
        with run have eqs: "\<not> ok" "task4 = t'" "d2 = d'" "E = evs"
          by simp_all
        show ?thesis
        proof (rule that(4) [OF en chk eqs(1) s1 a'])
          show "save_task_to_db (now_iso env)
                  (task1 \<lparr> status := FAILED, output_text := timeout_text,
                           executed_at := now_iso env \<rparr>) d1 = (j, t', d', ev3)"
            using s2 eqs(2,3) by simp
          show "evs = ev1 @ ev2 @ ev3 @ send_notification cfg (Tarea_Timeout (name t'))"
            using eqs(2,4) by (simp add: E_def)
        qed
      next
        case (Error e)
        obtain j task4 d2 ev3 where
          s2: "save_task_to_db (now_iso env)
                 (task1 \<lparr> status := FAILED, output_text := e,
                          executed_at := now_iso env \<rparr>) d1 = (j, task4, d2, ev3)"
          by (metis prod_cases4)
        from a Error have a': "attempt_task cfg env task1 = (ev2, Error e)"
          by simp
        have "execute_task cfg env task d = Inr (False, task4, d2, ev1 @ ev2 @ ev3)"
          by (rule execute_task_error [OF en chk s1 a' s2])
        with run have eqs: "\<not> ok" "task4 = t'" "d2 = d'" "ev1 @ ev2 @ ev3 = evs"
          by simp_all
        show ?thesis
        proof (rule that(5) [OF en chk eqs(1) s1 a'])
          show "save_task_to_db (now_iso env)
                  (task1 \<lparr> status := FAILED, output_text := e,
                           executed_at := now_iso env \<rparr>) d1 = (j, t', d', ev3)"
            using s2 eqs(2,3) by simp
          show "evs = ev1 @ ev2 @ ev3"
            using eqs(4) by simp
        qed
      qed
    qed
  qed
qed

subsection \<open>Evaluation of the examples\<close>

lemmas store_defs =
  save_task_to_db_def insert_row_def update_row_def next_id_def load_task_from_db_def
  task_of_row_def int_or_def str_or_def log_execution_def db_empty_def

lemmas check_defs =
  check_command_security_def cmd_base_def py_split_def py_isspace_def config_default_def

lemmas executor_defs =
  execute_task_def attempt_task_def of_run_def of_notification_run_def full_cmd_def
  script_path_def send_notification_def Task_default_def

lemma check_example_task:
  "check_command_security config_default (command example_task) = Inr True"
  by (simp add: check_defs example_task_def Task_default_def)

lemma check_example_reminder:
  "check_command_security config_default (command example_reminder) = Inr False"
  by (simp add: check_defs example_reminder_def Task_default_def)

lemma execute_example_task:
  "execute_task config_default example_env example_task db_empty =
     Inr (True,
          example_task \<lparr> task_id := Some 1, status := COMPLETED, output_text := ''ok'',
                         executed_at := ''2024-05-01T12:00:00'' \<rparr>,
          \<lparr> store_ok = True,
            tasks = [insert_row 1 ''2024-05-01T12:00:00'' (example_task \<lparr> status := COMPLETED \<rparr>)],
            execution_logs =
              [\<lparr> l_id = 1, l_task_id = 1, l_execution_time = ''2024-05-01T12:00:00'',
                 l_duration_seconds = 1, l_result_code = 0, l_output = ''ok'' \<rparr>],
            tasks_seq = 1, logs_seq = 1 \<rparr>,
          [StoreTask (example_task \<lparr> status := RUNNING \<rparr>),
           SubprocessRun (Argv [''echo'', ''ok'']) (Some ''/home/user''),
           StoreTask (example_task \<lparr> task_id := Some 1, status := COMPLETED, output_text := ''ok'',
                                    executed_at := ''2024-05-01T12:00:00'' \<rparr>),
           Notify (Tarea_Completada ''saludo'' 1)])"
  unfolding execute_task_def
  by (simp add: check_example_task)
     (simp add: example_task_def example_env_def store_defs attempt_task_def of_run_def
        full_cmd_def send_notification_def Task_default_def config_default_def)

lemma save_task_to_db_fields:
  assumes "save_task_to_db now task d = (i, t1, d1, evs)"
  shows "t1 \<lparr> task_id := x \<rparr> = task \<lparr> task_id := x \<rparr>"
  using save_task_to_db_task [OF assms] by auto

lemma save_task_to_db_same:
  assumes "save_task_to_db now task d = (i, t1, d1, evs)"
  shows "status t1 = status task" "output_text t1 = output_text task"
    "executed_at t1 = executed_at task" "task_type t1 = task_type task"
    "command t1 = command task" "result_code t1 = result_code task"
  using save_task_to_db_task [OF assms] by auto

lemma save_task_to_db_id:
  assumes "save_task_to_db now task d = (i, t1, d1, evs)" and "store_ok d"
  shows "task_id t1 = Some i"
  using assms by (auto simp: save_task_to_db_def Let_def split: if_splits option.splits)

lemma attempt_task_same:
  assumes "attempt_task cfg env task = (evs, Finished task2 success)"
  shows "status task2 = status task" "executed_at task2 = executed_at task"
    "task_id task2 = task_id task" "name task2 = name task"
proof -
  have "task2 = task \<lparr> result_code := result_code task2, output_text := output_text task2 \<rparr>"
    by (rule attempt_task_Finished [OF assms])
  then obtain rc out where eq: "task2 = task \<lparr> result_code := rc, output_text := out \<rparr>"
    by blast
  show "status task2 = status task" "executed_at task2 = executed_at task"
    "task_id task2 = task_id task" "name task2 = name task"
    by (simp_all add: eq)
qed

subsection \<open>The security check comes first\<close>

text \<open>
  C10. For every task, of any kind, \<^verbatim>\<open>_execute_task\<close> runs the security check on the
  command before the branch on the kind: whenever a call shows a notification or runs a
  process, the task was enabled and the check returned \<^verbatim>\<open>True\<close>. When the check
  fails for an enabled task, the call returns \<^verbatim>\<open>False\<close> with the task marked FAILED
  and its output the security-denial text, and the only event is the statement of
  \<^verbatim>\<open>_save_task_to_db\<close>: no notification is shown and no process is run. This covers
  the free text of a REMINDER or NOTIFICATION whose first word is not in a non-empty
  allow-list. (A disabled task leaves the function before the check, with no event.)
\<close>

theorem security_check_before_kind_action:
  "(\<forall>ok t' d' evs e. execute_task cfg env task d = Inr (ok, t', d', evs) \<longrightarrow>
       e \<in> set evs \<longrightarrow> \<not> is_store e \<longrightarrow>
       enabled task \<and> check_command_security cfg (command task) = Inr True)
   \<and> (enabled task \<longrightarrow> check_command_security cfg (command task) = Inr False \<longrightarrow>
         (\<exists>t' d' evs. execute_task cfg env task d = Inr (False, t', d', evs)
            \<and> status t' = FAILED \<and> output_text t' = deny_text \<and> list_all is_store evs))"
proof (intro conjI impI allI)
  assume en: "enabled task"
    and chk: "check_command_security cfg (command task) = Inr False"
  obtain i t1 d1 ev1 where
    s: "save_task_to_db (now_iso env) (task \<lparr> status := FAILED, output_text := deny_text \<rparr>) d
          = (i, t1, d1, ev1)"
    by (metis prod_cases4)
  have "execute_task cfg env task d = Inr (False, t1, d1, ev1)"
    using en chk s by (simp add: execute_task_denied)
  moreover have "status t1 = FAILED" "output_text t1 = deny_text"
    using save_task_to_db_same [OF s] by simp_all
  moreover have "list_all is_store ev1"
    using save_task_to_db_events [OF s] by (simp add: is_store_def)
  ultimately show "\<exists>t' d' evs. execute_task cfg env task d = Inr (False, t', d', evs)
      \<and> status t' = FAILED \<and> output_text t' = deny_text \<and> list_all is_store evs"
    by blast
next
  fix ok t' d' evs e
  assume run: "execute_task cfg env task d = Inr (ok, t', d', evs)"
    and e: "e \<in> set evs" "\<not> is_store e"
  from run have "enabled task \<and> check_command_security cfg (command task) = Inr True"
  proof (cases rule: execute_task_cases)
    case disabled
    with e show ?thesis by simp
  next
    case (denied i)
    with e save_task_to_db_events [OF denied(4)] show ?thesis
      by (auto simp: is_store_def split: if_splits)
  next
    case (finished i task1 d1 ev1 ev2 task2 j d2 ev3)
    then show ?thesis by simp
  next
    case (timeout i task1 d1 ev1 ev2 j ev3)
    then show ?thesis by simp
  next
    case (error i task1 d1 ev1 ev2 e j ev3)
    then show ?thesis by simp
  qed
  then show "enabled task" and "check_command_security cfg (command task) = Inr True"
    by simp_all
qed

theorem security_check_before_kind_action_witness:
  "enabled example_reminder \<and> task_type example_reminder = REMINDER
   \<and> check_command_security config_default (command example_reminder) = Inr False
   \<and> (\<exists>t' d' evs. execute_task config_default example_env example_reminder db_empty
                       = Inr (False, t', d', evs)
          \<and> status t' = FAILED \<and> output_text t' = deny_text \<and> list_all is_store evs)
   \<and> enabled example_task
   \<and> (\<exists>ok t' d' evs. execute_task config_default example_env example_task db_empty
                       = Inr (ok, t', d', evs)
          \<and> SubprocessRun (Argv [''echo'', ''ok'']) (Some ''/home/user'') \<in> set evs
          \<and> \<not> is_store (SubprocessRun (Argv [''echo'', ''ok'']) (Some ''/home/user'')))
   \<and> check_command_security config_default (command example_task) = Inr True"
proof -
  have r: "enabled example_reminder" "task_type example_reminder = REMINDER"
    by (simp_all add: example_reminder_def Task_default_def)
  have t: "enabled example_task"
    by (simp add: example_task_def Task_default_def)
  note a = security_check_before_kind_action
      [of config_default example_env example_reminder db_empty]
  note b = security_check_before_kind_action
      [of config_default example_env example_task db_empty]
  show ?thesis
    using r t a b check_example_reminder check_example_task execute_example_task
    by (auto simp: is_store_def)
qed

lemma save_new_task:
  "task_id task = None \<Longrightarrow>
     save_task_to_db ''2024-05-01T11:59:00'' task db_empty
       = (1, stored_task task, stored_db task, [StoreTask task])"
  by (simp add: store_defs stored_task_def stored_db_def)

lemma second_save_result_columns:
  assumes s1: "save_task_to_db now task d = (i, task1, d1, ev1)"
    and s2: "save_task_to_db now task3 d1 = (j, task4, d2, ev3)"
    and id: "task_id task3 = task_id task1"
  shows "map result_columns (tasks d2) =
           map result_columns (tasks d) @
             (if store_ok d \<and> task_id task = None then [(None, None, None)] else [])"
proof -
  have "\<not> (store_ok d1 \<and> task_id task3 = None)"
    using save_task_to_db_id [OF s1] save_task_to_db_logs [OF s1] id by auto
  then show ?thesis
    using save_task_to_db_result_columns [OF s1] save_task_to_db_result_columns [OF s2]
    by simp
qed

lemma execute_task_result_columns:
  assumes run: "execute_task cfg env task d = Inr (ok, t', d', evs)"
  shows "map result_columns (tasks d') =
           map result_columns (tasks d) @
             (if enabled task \<and> store_ok d \<and> task_id task = None then [(None, None, None)] else [])"
  using run
proof (cases rule: execute_task_cases)
  case disabled
  then show ?thesis by simp
next
  case (denied i)
  then show ?thesis
    using save_task_to_db_result_columns [OF denied(4)] by simp
next
  case (finished i task1 d1 ev1 ev2 task2 j d2 ev3)
  have "task_id (task2 \<lparr> status := (if ok then COMPLETED else FAILED),
                          executed_at := now_iso env \<rparr>) = task_id task1"
    using attempt_task_same(3) [OF finished(4)] by simp
  from second_save_result_columns [OF finished(3) finished(5) this] finished(1,6)
  show ?thesis
    by (simp add: log_execution_tasks)
next
  case (timeout i task1 d1 ev1 ev2 j ev3)
  have "task_id (task1 \<lparr> status := FAILED, output_text := timeout_text,
                          executed_at := now_iso env \<rparr>) = task_id task1"
    by simp
  from second_save_result_columns [OF timeout(4) timeout(6) this] timeout(1)
  show ?thesis by simp
next
  case (error i task1 d1 ev1 ev2 e j ev3)
  have "task_id (task1 \<lparr> status := FAILED, output_text := e,
                          executed_at := now_iso env \<rparr>) = task_id task1"
    by simp
  from second_save_result_columns [OF error(4) error(6) this] error(1)
  show ?thesis by simp
qed

subsection \<open>A denied task\<close>

text \<open>
  C5. For an enabled task whose command the security check denies, \<^verbatim>\<open>_execute_task\<close>
  returns \<^verbatim>\<open>False\<close>, the task object is marked FAILED with the security-denial text as
  output, and the only event is the statement of \<^verbatim>\<open>_save_task_to_db\<close>: no process is
  run. The statement writes the status; it does not write the output: the columns
  \<^verbatim>\<open>executed_at\<close>, \<^verbatim>\<open>result_code\<close> and \<^verbatim>\<open>output\<close> of every row stay as they were, and a
  row that the call inserts has them NULL. The denial text is not in the store.
\<close>

theorem denied_task_output_not_stored:
  assumes "enabled task"
    and "check_command_security cfg (command task) = Inr False"
    and "execute_task cfg env task d = Inr (ok, t', d', evs)"
  shows "\<not> ok \<and> status t' = FAILED \<and> output_text t' = deny_text \<and> list_all is_store evs
         \<and> map result_columns (tasks d') =
             map result_columns (tasks d) @
               (if store_ok d \<and> task_id task = None then [(None, None, None)] else [])"
proof -
  from assms(3) have cols: "map result_columns (tasks d') =
      map result_columns (tasks d) @
        (if enabled task \<and> store_ok d \<and> task_id task = None then [(None, None, None)] else [])"
    by (rule execute_task_result_columns)
  from assms(3) have "\<not> ok \<and> status t' = FAILED \<and> output_text t' = deny_text \<and> list_all is_store evs"
  proof (cases rule: execute_task_cases)
    case disabled
    with assms(1) show ?thesis by simp
  next
    case (denied i)
    then show ?thesis
      using save_task_to_db_same [OF denied(4)] save_task_to_db_events [OF denied(4)]
      by (simp add: is_store_def)
  next
    case (finished i task1 d1 ev1 ev2 task2 j d2 ev3)
    with assms(2) show ?thesis by simp
  next
    case (timeout i task1 d1 ev1 ev2 j ev3)
    with assms(2) show ?thesis by simp
  next
    case (error i task1 d1 ev1 ev2 e j ev3)
    with assms(2) show ?thesis by simp
  qed
  with cols assms(1) show ?thesis
    by simp
qed

lemma check_example_blocked:
  "check_command_security config_default (command (stored_task example_blocked)) = Inr False"
  by (simp add: check_defs example_blocked_def stored_task_def Task_default_def)

lemma execute_example_blocked:
  "execute_task config_default example_env (stored_task example_blocked) (stored_db example_blocked)
     = Inr (False,
            stored_task example_blocked \<lparr> status := FAILED, output_text := deny_text \<rparr>,
            stored_db (example_blocked \<lparr> status := FAILED \<rparr>),
            [StoreTask (stored_task example_blocked \<lparr> status := FAILED, output_text := deny_text \<rparr>)])"
  unfolding execute_task_def
  by (simp add: check_example_blocked)
     (simp add: example_blocked_def example_env_def store_defs stored_task_def stored_db_def
        Task_default_def)

theorem denied_task_output_not_stored_witness:
  "enabled (stored_task example_blocked)
   \<and> check_command_security config_default (command (stored_task example_blocked)) = Inr False
   \<and> execute_task config_default example_env (stored_task example_blocked) (stored_db example_blocked)
       = Inr (False,
              stored_task example_blocked \<lparr> status := FAILED, output_text := deny_text \<rparr>,
              stored_db (example_blocked \<lparr> status := FAILED \<rparr>),
              [StoreTask (stored_task example_blocked \<lparr> status := FAILED, output_text := deny_text \<rparr>)])
   \<and> map result_columns (tasks (stored_db (example_blocked \<lparr> status := FAILED \<rparr>)))
       = [(None, None, None)]
   \<and> map_option status (load_task_from_db 1 (stored_db (example_blocked \<lparr> status := FAILED \<rparr>)))
       = Some FAILED
   \<and> map_option output_text (load_task_from_db 1 (stored_db (example_blocked \<lparr> status := FAILED \<rparr>)))
       = Some []"
proof -
  have en: "enabled (stored_task example_blocked)"
    by (simp add: example_blocked_def stored_task_def Task_default_def)
  note th = denied_task_output_not_stored [OF en check_example_blocked execute_example_blocked]
  have "map_option status (load_task_from_db 1 (stored_db (example_blocked \<lparr> status := FAILED \<rparr>)))
          = Some FAILED"
    "map_option output_text (load_task_from_db 1 (stored_db (example_blocked \<lparr> status := FAILED \<rparr>)))
          = Some []"
    by (simp_all add: store_defs stored_db_def)
  with en th check_example_blocked execute_example_blocked show ?thesis
    by (simp add: stored_db_def result_columns_def insert_row_def)
qed

subsection \<open>A run that times out\<close>

lemma execute_task_timeout_branch:
  assumes en: "enabled task"
    and chk: "check_command_security cfg (command task) = Inr True"
    and kind: "task_type task = COMMAND \<or> task_type task = SCRIPT"
    and tmo: "run_result env = TimeoutExpired"
    and run: "execute_task cfg env task d = Inr (ok, t', d', evs)"
  obtains i task1 d1 ev1 ev2 j ev3 where
    "save_task_to_db (now_iso env) (task \<lparr> status := RUNNING \<rparr>) d = (i, task1, d1, ev1)"
    "attempt_task cfg env task1 = (ev2, Timeout)"
    "save_task_to_db (now_iso env)
       (task1 \<lparr> status := FAILED, output_text := timeout_text, executed_at := now_iso env \<rparr>) d1
     = (j, t', d', ev3)"
    "evs = ev1 @ ev2 @ ev3 @ send_notification cfg (Tarea_Timeout (name t'))"
    "\<not> ok"
  using run
proof (cases rule: execute_task_cases)
  case disabled
  with en show ?thesis by simp
next
  case (denied i)
  with chk show ?thesis by simp
next
  case (finished i task1 d1 ev1 ev2 task2 j d2 ev3)
  have "task_type task1 = task_type task"
    using save_task_to_db_same(4) [OF finished(3)] by simp
  with kind tmo have "snd (attempt_task cfg env task1) = Timeout"
    by (simp add: attempt_task_Timeout)
  with finished(4) show ?thesis by simp
next
  case (timeout i task1 d1 ev1 ev2 j ev3)
  then show ?thesis using that by blast
next
  case (error i task1 d1 ev1 ev2 e j ev3)
  have "task_type task1 = task_type task"
    using save_task_to_db_same(4) [OF error(4)] by simp
  with kind tmo have "snd (attempt_task cfg env task1) = Timeout"
    by (simp add: attempt_task_Timeout)
  with error(5) show ?thesis by simp
qed

lemma count_store_events:
  assumes "save_task_to_db now task d = (i, t1, d1, evs)"
  shows "length (filter is_store evs) = (if store_ok d then 1 else 0)"
  using save_task_to_db_events [OF assms] by (simp add: is_store_def)

lemma attempt_task_store_free:
  assumes "attempt_task cfg env task = (evs, att)"
  shows "filter is_store evs = []"
  using attempt_task_no_store [OF assms] by (simp add: filter_empty_conv)

lemma send_notification_store_free: "filter is_store (send_notification cfg n) = []"
  by (simp add: send_notification_def is_store_def)

lemma check_stored_example_task:
  "check_command_security config_default (command (stored_task example_task)) = Inr True"
  by (simp add: check_defs example_task_def stored_task_def Task_default_def)

lemma execute_example_timeout:
  "execute_task config_default example_env_timeout (stored_task example_task) (stored_db example_task)
     = Inr (False,
            stored_task example_task
              \<lparr> status := FAILED, output_text := timeout_text,
                executed_at := ''2024-05-01T12:00:00'' \<rparr>,
            stored_db (example_task \<lparr> status := FAILED \<rparr>),
            [StoreTask (stored_task example_task \<lparr> status := RUNNING \<rparr>),
             SubprocessRun (Argv [''echo'', ''ok'']) (Some ''/home/user''),
             StoreTask (stored_task example_task
                          \<lparr> status := FAILED, output_text := timeout_text,
                            executed_at := ''2024-05-01T12:00:00'' \<rparr>),
             Notify (Tarea_Timeout ''saludo'')])"
  unfolding execute_task_def
  by (simp add: check_stored_example_task)
     (simp add: example_task_def example_env_def example_env_timeout_def store_defs
        stored_task_def stored_db_def attempt_task_def of_run_def full_cmd_def
        send_notification_def Task_default_def config_default_def)

lemma stored_example_task_facts:
  "enabled (stored_task example_task)" "task_type (stored_task example_task) = COMMAND"
  "run_result example_env_timeout = TimeoutExpired" "now_iso example_env_timeout = ''2024-05-01T12:00:00''"
  by (simp_all add: example_task_def stored_task_def Task_default_def example_env_timeout_def
        example_env_def)

text \<open>
  C2. What an execution that times out leaves behind. For an enabled COMMAND or SCRIPT
  task that passes the security check and whose process raises \<^verbatim>\<open>TimeoutExpired\<close>:
  the table \<^verbatim>\<open>execution_logs\<close> is unchanged (the branch never calls
  \<^verbatim>\<open>_log_execution\<close>), \<^verbatim>\<open>_save_task_to_db\<close> executes two statements (the RUNNING state,
  then the FAILED state), and neither writes \<^verbatim>\<open>executed_at\<close>, \<^verbatim>\<open>result_code\<close> or
  \<^verbatim>\<open>output\<close>: these columns stay as they were in every row, NULL in a row the call
  inserts.
\<close>

theorem timeout_run_leaves_no_log_row:
  assumes "enabled task"
    and "check_command_security cfg (command task) = Inr True"
    and "task_type task = COMMAND \<or> task_type task = SCRIPT"
    and "run_result env = TimeoutExpired"
    and "execute_task cfg env task d = Inr (ok, t', d', evs)"
  shows "execution_logs d' = execution_logs d
         \<and> length (filter is_store evs) = (if store_ok d then 2 else 0)
         \<and> map result_columns (tasks d') =
             map result_columns (tasks d) @
               (if store_ok d \<and> task_id task = None then [(None, None, None)] else [])"
  using assms
proof (cases rule: execute_task_timeout_branch)
  case (1 i task1 d1 ev1 ev2 j ev3)
  have logs: "execution_logs d' = execution_logs d"
    using save_task_to_db_logs [OF 1(1)] save_task_to_db_logs [OF 1(3)] by simp
  have ok1: "store_ok d1 = store_ok d"
    using save_task_to_db_logs [OF 1(1)] by simp
  have n: "length (filter is_store evs) = (if store_ok d then 2 else 0)"
    using count_store_events [OF 1(1)] count_store_events [OF 1(3)]
      attempt_task_store_free [OF 1(2)] ok1
    by (simp add: 1(4) send_notification_store_free)
  from assms(5) have "map result_columns (tasks d') =
      map result_columns (tasks d) @
        (if enabled task \<and> store_ok d \<and> task_id task = None then [(None, None, None)] else [])"
    by (rule execute_task_result_columns)
  with logs n assms(1) show ?thesis
    by simp
qed

theorem timeout_run_leaves_no_log_row_witness:
  "enabled (stored_task example_task)
   \<and> check_command_security config_default (command (stored_task example_task)) = Inr True
   \<and> task_type (stored_task example_task) = COMMAND
   \<and> run_result example_env_timeout = TimeoutExpired
   \<and> (\<exists>t' evs. execute_task config_default example_env_timeout (stored_task example_task)
                   (stored_db example_task)
                 = Inr (False, t', stored_db (example_task \<lparr> status := FAILED \<rparr>), evs)
          \<and> length (filter is_store evs) = 2)
   \<and> execution_logs (stored_db (example_task \<lparr> status := FAILED \<rparr>)) = []
   \<and> map result_columns (tasks (stored_db (example_task \<lparr> status := FAILED \<rparr>)))
       = [(None, None, None)]"
proof -
  note th = timeout_run_leaves_no_log_row [OF stored_example_task_facts(1)
      check_stored_example_task disjI1 [OF stored_example_task_facts(2)]
      stored_example_task_facts(3) execute_example_timeout]
  show ?thesis
    using th stored_example_task_facts check_stored_example_task execute_example_timeout
    by (simp add: stored_db_def stored_task_def example_task_def Task_default_def
          result_columns_def insert_row_def)
qed

text \<open>
  C3. For an enabled COMMAND or SCRIPT task that passes the security check and whose
  process raises \<^verbatim>\<open>TimeoutExpired\<close> at the 300-second limit: the call returns
  \<^verbatim>\<open>False\<close>, the task is FAILED (not COMPLETED), its output is the timeout marker and
  its executed-at the current timestamp. No duration is recorded for the attempt: the
  table \<^verbatim>\<open>execution_logs\<close>, the only place that holds \<^verbatim>\<open>duration_seconds\<close>, is as it
  was.
\<close>

theorem timeout_marks_failed_without_duration:
  assumes "enabled task"
    and "check_command_security cfg (command task) = Inr True"
    and "task_type task = COMMAND \<or> task_type task = SCRIPT"
    and "run_result env = TimeoutExpired"
    and "execute_task cfg env task d = Inr (ok, t', d', evs)"
  shows "\<not> ok \<and> status t' = FAILED \<and> status t' \<noteq> COMPLETED \<and> output_text t' = timeout_text
         \<and> executed_at t' = now_iso env
         \<and> map l_duration_seconds (execution_logs d') = map l_duration_seconds (execution_logs d)"
  using assms
proof (cases rule: execute_task_timeout_branch)
  case (1 i task1 d1 ev1 ev2 j ev3)
  have "execution_logs d' = execution_logs d"
    using save_task_to_db_logs [OF 1(1)] save_task_to_db_logs [OF 1(3)] by simp
  then show ?thesis
    using save_task_to_db_same [OF 1(3)] 1(5) by simp
qed

theorem timeout_marks_failed_without_duration_witness:
  "enabled (stored_task example_task)
   \<and> check_command_security config_default (command (stored_task example_task)) = Inr True
   \<and> task_type (stored_task example_task) = COMMAND
   \<and> run_result example_env_timeout = TimeoutExpired
   \<and> (\<exists>t' d' evs. execute_task config_default example_env_timeout (stored_task example_task)
                      (stored_db example_task)
                    = Inr (False, t', d', evs)
          \<and> status t' = FAILED \<and> output_text t' = ''Timeout (5 minutos)''
          \<and> executed_at t' = ''2024-05-01T12:00:00''
          \<and> map l_duration_seconds (execution_logs d') = [])"
proof -
  note th = timeout_marks_failed_without_duration [OF stored_example_task_facts(1)
      check_stored_example_task disjI1 [OF stored_example_task_facts(2)]
      stored_example_task_facts(3) execute_example_timeout]
  show ?thesis
    using th stored_example_task_facts check_stored_example_task execute_example_timeout
    by (simp add: stored_db_def timeout_text_def)
qed

text \<open>
  The sibling branch, for comparison: when the process returns and the store is
  reachable, one row is appended to \<^verbatim>\<open>execution_logs\<close>, with the measured duration.
\<close>

lemma finished_run_logs_once:
  assumes "enabled task"
    and "check_command_security cfg (command task) = Inr True"
    and "task_type task = COMMAND \<or> task_type task = SCRIPT"
    and "run_result env = Exited rc out err"
    and "store_ok d"
    and run: "execute_task cfg env task d = Inr (ok, t', d', evs)"
  shows "\<exists>l. execution_logs d' = execution_logs d @ [l]
             \<and> l_duration_seconds l = end_time env - start_time env
             \<and> l_result_code l = rc \<and> l_output l = take 1000 (out @ err)"
  using run
proof (cases rule: execute_task_cases)
  case disabled
  with assms(1) show ?thesis by simp
next
  case (denied i)
  with assms(2) show ?thesis by simp
next
  case (finished i task1 d1 ev1 ev2 task2 j d2 ev3)
  have k: "task_type task1 = task_type task"
    using save_task_to_db_same(4) [OF finished(3)] by simp
  have t2: "result_code task2 = rc" "output_text task2 = out @ err"
    using finished(4) assms(3,4) k
    by (auto simp: attempt_task_def Let_def of_run_def)
  have oks: "store_ok d1" "store_ok d2" "execution_logs d2 = execution_logs d"
    using save_task_to_db_logs [OF finished(3)] save_task_to_db_logs [OF finished(5)] assms(5)
    by simp_all
  have id: "task_id t' = Some j"
    using save_task_to_db_id [OF finished(5) oks(1)] .
  have t': "result_code t' = rc" "output_text t' = out @ err"
    using save_task_to_db_same [OF finished(5)] t2 by simp_all
  show ?thesis
    using oks id t' by (simp add: finished(6) log_execution_def Let_def)
next
  case (timeout i task1 d1 ev1 ev2 j ev3)
  have "task_type task1 = task_type task"
    using save_task_to_db_same(4) [OF timeout(4)] by simp
  with timeout(5) assms(3,4) show ?thesis
    by (auto simp: attempt_task_def Let_def of_run_def)
next
  case (error i task1 d1 ev1 ev2 e j ev3)
  have "task_type task1 = task_type task"
    using save_task_to_db_same(4) [OF error(4)] by simp
  with error(5) assms(3,4) show ?thesis
    by (auto simp: attempt_task_def Let_def of_run_def)
qed

subsection \<open>Executed-at and status\<close>

lemma stored_states:
  assumes run: "execute_task cfg env task d = Inr (ok, t', d', evs)"
    and s: "StoreTask s \<in> set evs"
  shows "(status s = RUNNING \<and> executed_at s = executed_at task)
         \<or> (status s = FAILED \<and> output_text s = deny_text \<and> executed_at s = executed_at task)
         \<or> ((status s = COMPLETED \<or> status s = FAILED) \<and> executed_at s = now_iso env)"
  using run
proof (cases rule: execute_task_cases)
  case disabled
  with s show ?thesis by simp
next
  case (denied i)
  with s save_task_to_db_events [OF denied(4)] show ?thesis
    by (auto split: if_splits)
next
  case (finished i task1 d1 ev1 ev2 task2 j d2 ev3)
  have a: "StoreTask s \<notin> set ev2"
    using attempt_task_no_store [OF finished(4), of "StoreTask s"] by (auto simp: is_store_def)
  have n: "StoreTask s \<notin> set (send_notification cfg m)" for m
    by (simp add: send_notification_def)
  from s finished(7) a n have "StoreTask s \<in> set ev1 \<or> StoreTask s \<in> set ev3"
    by (auto split: if_splits)
  then show ?thesis
    using save_task_to_db_events [OF finished(3)] save_task_to_db_events [OF finished(5)]
    by (auto split: if_splits)
next
  case (timeout i task1 d1 ev1 ev2 j ev3)
  have a: "StoreTask s \<notin> set ev2"
    using attempt_task_no_store [OF timeout(5), of "StoreTask s"] by (auto simp: is_store_def)
  have n: "StoreTask s \<notin> set (send_notification cfg m)" for m
    by (simp add: send_notification_def)
  from s timeout(7) a n have "StoreTask s \<in> set ev1 \<or> StoreTask s \<in> set ev3"
    by auto
  then show ?thesis
    using save_task_to_db_events [OF timeout(4)] save_task_to_db_events [OF timeout(6)]
    by (auto split: if_splits)
next
  case (error i task1 d1 ev1 ev2 e j ev3)
  have a: "StoreTask s \<notin> set ev2"
    using attempt_task_no_store [OF error(5), of "StoreTask s"] by (auto simp: is_store_def)
  from s error(7) a have "StoreTask s \<in> set ev1 \<or> StoreTask s \<in> set ev3"
    by auto
  then show ?thesis
    using save_task_to_db_events [OF error(4)] save_task_to_db_events [OF error(6)]
    by (auto split: if_splits)
qed

lemma second_save_event:
  assumes s1: "save_task_to_db now task d = (i, task1, d1, ev1)"
    and s2: "save_task_to_db now task3 d1 = (j, task4, d2, ev3)"
    and id: "task_id task3 = task_id task1"
    and ok: "store_ok d"
  shows "task4 = task3 \<and> ev3 = [StoreTask task4]"
proof -
  have "task_id task3 \<noteq> None" "store_ok d1"
    using save_task_to_db_id [OF s1 ok] save_task_to_db_logs [OF s1] id ok by auto
  then show ?thesis
    using save_task_to_db_task [OF s2] save_task_to_db_events [OF s2] by auto
qed

lemma final_state:
  assumes run: "execute_task cfg env task d = Inr (ok, t', d', evs)"
    and en: "enabled task"
    and chk: "check_command_security cfg (command task) = Inr True"
  shows "(status t' = COMPLETED \<or> status t' = FAILED) \<and> executed_at t' = now_iso env
         \<and> (store_ok d \<longrightarrow> StoreTask t' \<in> set evs)"
  using run
proof (cases rule: execute_task_cases)
  case disabled
  with en show ?thesis by simp
next
  case (denied i)
  with chk show ?thesis by simp
next
  case (finished i task1 d1 ev1 ev2 task2 j d2 ev3)
  have id: "task_id (task2 \<lparr> status := (if ok then COMPLETED else FAILED),
                              executed_at := now_iso env \<rparr>) = task_id task1"
    using attempt_task_same(3) [OF finished(4)] by simp
  have "store_ok d \<longrightarrow> StoreTask t' \<in> set evs"
    using second_save_event [OF finished(3) finished(5) id] by (simp add: finished(7))
  then show ?thesis
    using save_task_to_db_same [OF finished(5)] by simp
next
  case (timeout i task1 d1 ev1 ev2 j ev3)
  have id: "task_id (task1 \<lparr> status := FAILED, output_text := timeout_text,
                              executed_at := now_iso env \<rparr>) = task_id task1"
    by simp
  have "store_ok d \<longrightarrow> StoreTask t' \<in> set evs"
    using second_save_event [OF timeout(4) timeout(6) id] by (simp add: timeout(7))
  then show ?thesis
    using save_task_to_db_same [OF timeout(6)] by simp
next
  case (error i task1 d1 ev1 ev2 e j ev3)
  have id: "task_id (task1 \<lparr> status := FAILED, output_text := e,
                              executed_at := now_iso env \<rparr>) = task_id task1"
    by simp
  have "store_ok d \<longrightarrow> StoreTask t' \<in> set evs"
    using second_save_event [OF error(4) error(6) id] by (simp add: error(7))
  then show ?thesis
    using save_task_to_db_same [OF error(6)] by simp
qed

lemma execute_stored_example_task:
  "execute_task config_default example_env (stored_task example_task) (stored_db example_task)
     = Inr (True,
            stored_task example_task
              \<lparr> status := COMPLETED, output_text := ''ok'', executed_at := ''2024-05-01T12:00:00'' \<rparr>,
            stored_db (example_task \<lparr> status := COMPLETED \<rparr>)
              \<lparr> execution_logs :=
                  [\<lparr> l_id = 1, l_task_id = 1, l_execution_time = ''2024-05-01T12:00:00'',
                     l_duration_seconds = 1, l_result_code = 0, l_output = ''ok'' \<rparr>],
                logs_seq := 1 \<rparr>,
            [StoreTask (stored_task example_task \<lparr> status := RUNNING \<rparr>),
             SubprocessRun (Argv [''echo'', ''ok'']) (Some ''/home/user''),
             StoreTask (stored_task example_task
                          \<lparr> status := COMPLETED, output_text := ''ok'',
                            executed_at := ''2024-05-01T12:00:00'' \<rparr>),
             Notify (Tarea_Completada ''saludo'' 1)])"
  unfolding execute_task_def
  by (simp add: check_stored_example_task)
     (simp add: example_task_def example_env_def store_defs stored_task_def stored_db_def
        attempt_task_def of_run_def full_cmd_def send_notification_def Task_default_def
        config_default_def)

text \<open>
  C6, as the claim states it, fails: the first state that the Executor hands to the
  store for a task that never ran is RUNNING with an empty executed-at.
\<close>

theorem executed_at_rule_counterexample:
  "execute_task config_default example_env (stored_task example_task) (stored_db example_task)
     = Inr (True,
            stored_task example_task
              \<lparr> status := COMPLETED, output_text := ''ok'', executed_at := ''2024-05-01T12:00:00'' \<rparr>,
            stored_db (example_task \<lparr> status := COMPLETED \<rparr>)
              \<lparr> execution_logs :=
                  [\<lparr> l_id = 1, l_task_id = 1, l_execution_time = ''2024-05-01T12:00:00'',
                     l_duration_seconds = 1, l_result_code = 0, l_output = ''ok'' \<rparr>],
                logs_seq := 1 \<rparr>,
            [StoreTask (stored_task example_task \<lparr> status := RUNNING \<rparr>),
             SubprocessRun (Argv [''echo'', ''ok'']) (Some ''/home/user''),
             StoreTask (stored_task example_task
                          \<lparr> status := COMPLETED, output_text := ''ok'',
                            executed_at := ''2024-05-01T12:00:00'' \<rparr>),
             Notify (Tarea_Completada ''saludo'' 1)])
   \<and> status (stored_task example_task \<lparr> status := RUNNING \<rparr>) = RUNNING
   \<and> executed_at (stored_task example_task \<lparr> status := RUNNING \<rparr>) = []
   \<and> \<not> executed_at_rule (stored_task example_task \<lparr> status := RUNNING \<rparr>)"
  using execute_stored_example_task
  by (simp add: executed_at_rule_def stored_task_def example_task_def Task_default_def)

lemma is_store_StoreTask: "is_store (StoreTask t)"
  by (simp add: is_store_def)

lemma first_save_event:
  assumes "save_task_to_db now task d = (i, task1, d1, ev1)"
  shows "filter is_store ev1 = (if store_ok d then [StoreTask task] else [])"
    and "ev1 = (if store_ok d then [StoreTask task] else [])"
  using save_task_to_db_events [OF assms] by (simp_all add: is_store_def)

lemma second_save_store_events:
  assumes s1: "save_task_to_db now task d = (i, task1, d1, ev1)"
    and s2: "save_task_to_db now task3 d1 = (j, task4, d2, ev3)"
    and id: "task_id task3 = task_id task1"
  shows "filter is_store ev3 = (if store_ok d then [StoreTask task4] else [])"
proof (cases "store_ok d")
  case True
  from second_save_event [OF s1 s2 id True] show ?thesis
    using True by (simp add: is_store_def)
next
  case False
  then have "\<not> store_ok d1"
    using save_task_to_db_logs [OF s1] by simp
  then show ?thesis
    using save_task_to_db_events [OF s2] False by simp
qed

text \<open>The states handed to the store by an execution that passed the security check.\<close>

lemma permitted_store_events:
  assumes run: "execute_task cfg env task d = Inr (ok, t', d', evs)"
    and en: "enabled task"
    and chk: "check_command_security cfg (command task) = Inr True"
  shows "filter is_store evs
           = (if store_ok d then [StoreTask (task \<lparr> status := RUNNING \<rparr>), StoreTask t'] else [])"
  using run
proof (cases rule: execute_task_cases)
  case disabled
  with en show ?thesis by simp
next
  case (denied i)
  with chk show ?thesis by simp
next
  case (finished i task1 d1 ev1 ev2 task2 j d2 ev3)
  have id: "task_id (task2 \<lparr> status := (if ok then COMPLETED else FAILED),
                              executed_at := now_iso env \<rparr>) = task_id task1"
    using attempt_task_same(3) [OF finished(4)] by simp
  show ?thesis
    unfolding finished(7)
    using first_save_event(1) [OF finished(3)] attempt_task_store_free [OF finished(4)]
      second_save_store_events [OF finished(3) finished(5) id]
    by (simp add: send_notification_store_free)
next
  case (timeout i task1 d1 ev1 ev2 j ev3)
  have id: "task_id (task1 \<lparr> status := FAILED, output_text := timeout_text,
                              executed_at := now_iso env \<rparr>) = task_id task1"
    by simp
  show ?thesis
    unfolding timeout(7)
    using first_save_event(1) [OF timeout(4)] attempt_task_store_free [OF timeout(5)]
      second_save_store_events [OF timeout(4) timeout(6) id]
    by (simp add: send_notification_store_free)
next
  case (error i task1 d1 ev1 ev2 e j ev3)
  have id: "task_id (task1 \<lparr> status := FAILED, output_text := e,
                              executed_at := now_iso env \<rparr>) = task_id task1"
    by simp
  show ?thesis
    unfolding error(7)
    using first_save_event(1) [OF error(4)] attempt_task_store_free [OF error(5)]
      second_save_store_events [OF error(4) error(6) id]
    by simp
qed

text \<open>The one state handed to the store on a security denial.\<close>

lemma denied_store_events:
  assumes run: "execute_task cfg env task d = Inr (ok, t', d', evs)"
    and en: "enabled task"
    and chk: "check_command_security cfg (command task) = Inr False"
  shows "status t' = FAILED \<and> executed_at t' = executed_at task
         \<and> evs = (if store_ok d
                   then [StoreTask (task \<lparr> status := FAILED, output_text := deny_text \<rparr>)]
                   else [])"
  using run
proof (cases rule: execute_task_cases)
  case disabled
  with en show ?thesis by simp
next
  case (denied i)
  show ?thesis
    using save_task_to_db_same [OF denied(4)] first_save_event(2) [OF denied(4)] by simp
next
  case (finished i task1 d1 ev1 ev2 task2 j d2 ev3)
  with chk show ?thesis by simp
next
  case (timeout i task1 d1 ev1 ev2 j ev3)
  with chk show ?thesis by simp
next
  case (error i task1 d1 ev1 ev2 e j ev3)
  with chk show ?thesis by simp
qed

lemma disabled_no_events:
  assumes run: "execute_task cfg env task d = Inr (ok, t', d', evs)"
    and dis: "\<not> enabled task"
  shows "t' = task \<and> d' = d \<and> evs = []"
  using run dis by (simp add: execute_task_disabled)

text \<open>
  C6, amended. This is about the task object that \<^verbatim>\<open>_execute_task\<close> hands to
  \<^verbatim>\<open>_save_task_to_db\<close> at each call, in the order of the calls. Every such state has
  status RUNNING, COMPLETED or FAILED, so a non-empty executed-at goes with such a status,
  and a COMPLETED state has a non-empty executed-at; the converse holds only at the end of
  an attempt. When the security check passes, exactly two states are handed over: first
  the RUNNING state, with the executed-at the task came with (empty for a task that never
  ran), and last the state the call ends in, COMPLETED or FAILED with executed-at the
  current timestamp, on the success, failure, timeout and exception branch alike; for
  this last state the rule of the spec holds. When the check denies, one state is handed
  over: FAILED, with the denial text and the executed-at the task came with. A disabled
  task is not handed over. (When the store is not reachable no statement is executed.)
\<close>

theorem executed_at_of_stored_states:
  assumes "execute_task cfg env task d = Inr (ok, t', d', evs)"
    and "now_iso env \<noteq> []"
  shows "(\<forall>s. StoreTask s \<in> set evs \<longrightarrow>
            (status s = RUNNING \<or> status s = COMPLETED \<or> status s = FAILED)
            \<and> (status s = COMPLETED \<longrightarrow> executed_at s \<noteq> [])
            \<and> (status s = RUNNING \<longrightarrow> executed_at s = executed_at task)
            \<and> (executed_at s = executed_at task \<or> executed_at s = now_iso env))
         \<and> (enabled task \<and> check_command_security cfg (command task) = Inr True \<longrightarrow>
              (status t' = COMPLETED \<or> status t' = FAILED) \<and> executed_at t' = now_iso env
              \<and> executed_at_rule t'
              \<and> filter is_store evs
                  = (if store_ok d
                     then [StoreTask (task \<lparr> status := RUNNING \<rparr>), StoreTask t']
                     else []))
         \<and> (enabled task \<and> check_command_security cfg (command task) = Inr False \<longrightarrow>
              status t' = FAILED \<and> executed_at t' = executed_at task
              \<and> evs = (if store_ok d
                        then [StoreTask (task \<lparr> status := FAILED, output_text := deny_text \<rparr>)]
                        else []))
         \<and> (\<not> enabled task \<longrightarrow> t' = task \<and> evs = [])"
proof -
  have a: "\<forall>s. StoreTask s \<in> set evs \<longrightarrow>
            (status s = RUNNING \<or> status s = COMPLETED \<or> status s = FAILED)
            \<and> (status s = COMPLETED \<longrightarrow> executed_at s \<noteq> [])
            \<and> (status s = RUNNING \<longrightarrow> executed_at s = executed_at task)
            \<and> (executed_at s = executed_at task \<or> executed_at s = now_iso env)"
  proof (intro allI impI)
    fix s
    assume "StoreTask s \<in> set evs"
    from stored_states [OF assms(1) this] assms(2)
    show "(status s = RUNNING \<or> status s = COMPLETED \<or> status s = FAILED)
            \<and> (status s = COMPLETED \<longrightarrow> executed_at s \<noteq> [])
            \<and> (status s = RUNNING \<longrightarrow> executed_at s = executed_at task)
            \<and> (executed_at s = executed_at task \<or> executed_at s = now_iso env)"
      by auto
  qed
  have b: "enabled task \<and> check_command_security cfg (command task) = Inr True \<longrightarrow>
              (status t' = COMPLETED \<or> status t' = FAILED) \<and> executed_at t' = now_iso env
              \<and> executed_at_rule t'
              \<and> filter is_store evs
                  = (if store_ok d
                     then [StoreTask (task \<lparr> status := RUNNING \<rparr>), StoreTask t']
                     else [])"
  proof
    assume h: "enabled task \<and> check_command_security cfg (command task) = Inr True"
    then have f: "(status t' = COMPLETED \<or> status t' = FAILED) \<and> executed_at t' = now_iso env"
      using final_state [OF assms(1)] by simp
    with assms(2) have r: "executed_at_rule t'"
      by (auto simp: executed_at_rule_def)
    from h have "filter is_store evs
        = (if store_ok d then [StoreTask (task \<lparr> status := RUNNING \<rparr>), StoreTask t'] else [])"
      using permitted_store_events [OF assms(1)] by simp
    with f r show "(status t' = COMPLETED \<or> status t' = FAILED) \<and> executed_at t' = now_iso env
              \<and> executed_at_rule t'
              \<and> filter is_store evs
                  = (if store_ok d
                     then [StoreTask (task \<lparr> status := RUNNING \<rparr>), StoreTask t']
                     else [])"
      by simp
  qed
  have c: "enabled task \<and> check_command_security cfg (command task) = Inr False \<longrightarrow>
              status t' = FAILED \<and> executed_at t' = executed_at task
              \<and> evs = (if store_ok d
                        then [StoreTask (task \<lparr> status := FAILED, output_text := deny_text \<rparr>)]
                        else [])"
    using denied_store_events [OF assms(1)] by simp
  have e: "\<not> enabled task \<longrightarrow> t' = task \<and> evs = []"
    using disabled_no_events [OF assms(1)] by simp
  from a b c e show ?thesis
    by (intro conjI)
qed

theorem executed_at_of_stored_states_witness:
  "now_iso example_env \<noteq> []
   \<and> enabled (stored_task example_task)
   \<and> check_command_security config_default (command (stored_task example_task)) = Inr True
   \<and> store_ok (stored_db example_task)
   \<and> (\<exists>t' d' evs.
         execute_task config_default example_env (stored_task example_task) (stored_db example_task)
           = Inr (True, t', d', evs)
         \<and> filter is_store evs
             = [StoreTask (stored_task example_task \<lparr> status := RUNNING \<rparr>), StoreTask t']
         \<and> executed_at (stored_task example_task \<lparr> status := RUNNING \<rparr>) = []
         \<and> status t' = COMPLETED
         \<and> executed_at t' = ''2024-05-01T12:00:00'' \<and> executed_at_rule t')
   \<and> enabled (stored_task example_blocked)
   \<and> check_command_security config_default (command (stored_task example_blocked)) = Inr False
   \<and> store_ok (stored_db example_blocked)
   \<and> (\<exists>t' d' evs.
         execute_task config_default example_env (stored_task example_blocked)
           (stored_db example_blocked)
           = Inr (False, t', d', evs)
         \<and> evs = [StoreTask (stored_task example_blocked
                                \<lparr> status := FAILED, output_text := deny_text \<rparr>)]
         \<and> status t' = FAILED \<and> executed_at t' = [])
   \<and> \<not> enabled (stored_task example_task \<lparr> enabled := False \<rparr>)
   \<and> execute_task config_default example_env (stored_task example_task \<lparr> enabled := False \<rparr>)
         (stored_db example_task)
       = Inr (False, stored_task example_task \<lparr> enabled := False \<rparr>, stored_db example_task, [])"
proof -
  have n: "now_iso example_env \<noteq> []" "now_iso example_env = ''2024-05-01T12:00:00''"
    by (simp_all add: example_env_def)
  have ok: "store_ok (stored_db example_task)" "store_ok (stored_db example_blocked)"
    by (simp_all add: stored_db_def)
  note en = stored_example_task_facts(1)
  note chk = check_stored_example_task
  txt \<open>The execution that passes the check.\<close>
  define t' where "t' = stored_task example_task
     \<lparr> status := COMPLETED, output_text := ''ok'', executed_at := ''2024-05-01T12:00:00'' \<rparr>"
  define running where "running = stored_task example_task \<lparr> status := RUNNING \<rparr>"
  define evs where "evs =
     [StoreTask running, SubprocessRun (Argv [''echo'', ''ok'']) (Some ''/home/user''),
      StoreTask t', Notify (Tarea_Completada ''saludo'' 1)]"
  obtain d' where
    run: "execute_task config_default example_env (stored_task example_task) (stored_db example_task)
            = Inr (True, t', d', evs)"
    unfolding t'_def evs_def running_def using execute_stored_example_task by blast
  note th = executed_at_of_stored_states [OF run n(1)]
  from th en chk ok(1) have fin: "executed_at t' = now_iso example_env" "executed_at_rule t'"
    "filter is_store evs = [StoreTask running, StoreTask t']"
    unfolding running_def by simp_all
  have st: "status t' = COMPLETED" "executed_at running = []"
    by (simp_all add: t'_def running_def stored_task_def example_task_def Task_default_def)
  have A: "\<exists>t' d' evs.
         execute_task config_default example_env (stored_task example_task) (stored_db example_task)
           = Inr (True, t', d', evs)
         \<and> filter is_store evs
             = [StoreTask (stored_task example_task \<lparr> status := RUNNING \<rparr>), StoreTask t']
         \<and> executed_at (stored_task example_task \<lparr> status := RUNNING \<rparr>) = []
         \<and> status t' = COMPLETED
         \<and> executed_at t' = ''2024-05-01T12:00:00'' \<and> executed_at_rule t'"
  proof (intro exI conjI)
    show "execute_task config_default example_env (stored_task example_task)
            (stored_db example_task) = Inr (True, t', d', evs)"
      by (rule run)
    show "filter is_store evs
            = [StoreTask (stored_task example_task \<lparr> status := RUNNING \<rparr>), StoreTask t']"
      using fin(3) by (simp add: running_def)
    show "executed_at (stored_task example_task \<lparr> status := RUNNING \<rparr>) = []"
      using st(2) by (simp add: running_def)
    show "status t' = COMPLETED"
      by (rule st(1))
    show "executed_at t' = ''2024-05-01T12:00:00''"
      using fin(1) n(2) by simp
    show "executed_at_rule t'"
      by (rule fin(2))
  qed
  txt \<open>The execution that the check denies.\<close>
  have enb: "enabled (stored_task example_blocked)"
    "executed_at (stored_task example_blocked) = []"
    by (simp_all add: example_blocked_def stored_task_def Task_default_def)
  note thb = executed_at_of_stored_states [OF execute_example_blocked n(1)]
  from thb enb(1) check_example_blocked ok(2)
  have finb: "status (stored_task example_blocked \<lparr> status := FAILED, output_text := deny_text \<rparr>)
                = FAILED"
    "executed_at (stored_task example_blocked \<lparr> status := FAILED, output_text := deny_text \<rparr>)
       = executed_at (stored_task example_blocked)"
    by simp_all
  have B: "\<exists>t' d' evs.
         execute_task config_default example_env (stored_task example_blocked)
           (stored_db example_blocked)
           = Inr (False, t', d', evs)
         \<and> evs = [StoreTask (stored_task example_blocked
                                \<lparr> status := FAILED, output_text := deny_text \<rparr>)]
         \<and> status t' = FAILED \<and> executed_at t' = []"
  proof (intro exI conjI)
    show "execute_task config_default example_env (stored_task example_blocked)
            (stored_db example_blocked)
          = Inr (False,
                 stored_task example_blocked \<lparr> status := FAILED, output_text := deny_text \<rparr>,
                 stored_db (example_blocked \<lparr> status := FAILED \<rparr>),
                 [StoreTask (stored_task example_blocked
                               \<lparr> status := FAILED, output_text := deny_text \<rparr>)])"
      by (rule execute_example_blocked)
    show "[StoreTask (stored_task example_blocked \<lparr> status := FAILED, output_text := deny_text \<rparr>)]
          = [StoreTask (stored_task example_blocked
                          \<lparr> status := FAILED, output_text := deny_text \<rparr>)]"
      by (rule refl)
    show "status (stored_task example_blocked \<lparr> status := FAILED, output_text := deny_text \<rparr>)
            = FAILED"
      by (rule finb(1))
    show "executed_at (stored_task example_blocked \<lparr> status := FAILED, output_text := deny_text \<rparr>)
            = []"
      using finb(2) enb(2) by simp
  qed
  txt \<open>The disabled task.\<close>
  have dis: "\<not> enabled (stored_task example_task \<lparr> enabled := False \<rparr>)"
    by simp
  have C: "execute_task config_default example_env (stored_task example_task \<lparr> enabled := False \<rparr>)
         (stored_db example_task)
       = Inr (False, stored_task example_task \<lparr> enabled := False \<rparr>, stored_db example_task, [])"
    by (simp add: execute_task_disabled)
  show ?thesis
    by (intro conjI n(1) en chk ok A enb(1) check_example_blocked B dis C)
qed

subsection \<open>The retention sweep\<close>

lemma sql_delete_filter:
  "sql_delete p rs = (filter (\<lambda>r. \<not> p r) rs, length (filter p rs))"
  by (induction rs) (simp_all add: Let_def)

lemma length_filter_split:
  "length (filter p rs) = length rs - length (filter (\<lambda>r. \<not> p r) rs)"
  using sum_length_filter_compl [of p rs] by simp

text \<open>
  C7, as the claim states it, fails on the count: on the database that the completed
  example task left, a sweep with a later cutoff deletes one row (the log row; the task
  row has no executed-at in the store) and its count is 0.
\<close>

theorem cleanup_count_counterexample:
  "cleanup_old_tasks ''2024-06-01T00:00:00'' example_done_db
     = (example_done_db \<lparr> execution_logs := [] \<rparr>, Some 0)
   \<and> length (execution_logs example_done_db) + length (tasks example_done_db) = 2
   \<and> length (execution_logs (example_done_db \<lparr> execution_logs := [] \<rparr>))
       + length (tasks (example_done_db \<lparr> execution_logs := [] \<rparr>)) = 1"
  by (simp add: cleanup_old_tasks_def sql_delete_filter example_done_db_def stored_db_def
        old_log_def old_task_def insert_row_def)

text \<open>
  C7, amended. When the store is reachable, the sweep deletes exactly the rows of
  \<^verbatim>\<open>execution_logs\<close> whose execution time is strictly before the cutoff and exactly
  the rows of \<^verbatim>\<open>tasks\<close> in status COMPLETED, FAILED or CANCELLED whose executed-at is
  set and strictly before the cutoff (the order of strings); every other row stays, in
  place and unchanged, as do the counters. The function returns nothing; the count it
  computes, and logs when positive, is the number of deleted task rows, the deleted log
  rows not counted.
\<close>

theorem cleanup_old_tasks_sweep:
  assumes "store_ok d"
  shows "execution_logs (fst (cleanup_old_tasks cutoff d))
           = filter (\<lambda>l. \<not> l_execution_time l < cutoff) (execution_logs d)
         \<and> tasks (fst (cleanup_old_tasks cutoff d))
           = filter (\<lambda>r. \<not> ((r_status r = COMPLETED \<or> r_status r = FAILED \<or> r_status r = CANCELLED)
                               \<and> (\<exists>e. r_executed_at r = Some e \<and> e < cutoff))) (tasks d)
         \<and> snd (cleanup_old_tasks cutoff d)
           = Some (length (tasks d) - length (tasks (fst (cleanup_old_tasks cutoff d))))
         \<and> store_ok (fst (cleanup_old_tasks cutoff d))
         \<and> tasks_seq (fst (cleanup_old_tasks cutoff d)) = tasks_seq d
         \<and> logs_seq (fst (cleanup_old_tasks cutoff d)) = logs_seq d"
proof -
  have p: "old_task cutoff = (\<lambda>r. (r_status r = COMPLETED \<or> r_status r = FAILED \<or> r_status r = CANCELLED)
                               \<and> (\<exists>e. r_executed_at r = Some e \<and> e < cutoff))"
    by (auto simp: old_task_def fun_eq_iff split: option.splits)
  have c: "cleanup_old_tasks cutoff d =
      (d \<lparr> tasks := filter (\<lambda>r. \<not> old_task cutoff r) (tasks d),
           execution_logs := filter (\<lambda>l. \<not> old_log cutoff l) (execution_logs d) \<rparr>,
       Some (length (filter (old_task cutoff) (tasks d))))"
    using assms by (simp add: cleanup_old_tasks_def sql_delete_filter)
  have logs: "execution_logs (fst (cleanup_old_tasks cutoff d))
           = filter (\<lambda>l. \<not> l_execution_time l < cutoff) (execution_logs d)"
    by (simp add: c old_log_def)
  have tasks': "tasks (fst (cleanup_old_tasks cutoff d)) = filter (\<lambda>r. \<not> old_task cutoff r) (tasks d)"
    by (simp add: c)
  have n: "snd (cleanup_old_tasks cutoff d)
           = Some (length (tasks d) - length (tasks (fst (cleanup_old_tasks cutoff d))))"
    unfolding tasks' by (simp add: c length_filter_split [of "old_task cutoff"])
  have rest: "store_ok (fst (cleanup_old_tasks cutoff d))"
    "tasks_seq (fst (cleanup_old_tasks cutoff d)) = tasks_seq d"
    "logs_seq (fst (cleanup_old_tasks cutoff d)) = logs_seq d"
    using assms by (simp_all add: c)
  from logs tasks' [unfolded p] n rest show ?thesis
    by blast
qed

theorem cleanup_old_tasks_sweep_witness:
  "store_ok example_sweep_db
   \<and> tasks (fst (cleanup_old_tasks ''2024-04-01T00:00:00'' example_sweep_db))
       = [sweep_row 2 PENDING (Some ''2024-01-05T08:00:00''),
          sweep_row 3 FAILED (Some ''2024-05-01T12:00:00''),
          sweep_row 4 CANCELLED None]
   \<and> execution_logs (fst (cleanup_old_tasks ''2024-04-01T00:00:00'' example_sweep_db))
       = [sweep_log 2 ''2024-05-01T12:00:00'']
   \<and> snd (cleanup_old_tasks ''2024-04-01T00:00:00'' example_sweep_db) = Some 1"
proof -
  have ok: "store_ok example_sweep_db"
    by (simp add: example_sweep_db_def)
  note th = cleanup_old_tasks_sweep [OF ok, of "''2024-04-01T00:00:00''"]
  have st: "r_status (sweep_row i s ex) = s" "r_executed_at (sweep_row i s ex) = ex" for i s ex
    by (simp_all add: sweep_row_def insert_row_def)
  have lg: "l_execution_time (sweep_log i ts) = ts" for i ts
    by (simp add: sweep_log_def)
  have t: "tasks example_sweep_db =
      [sweep_row 1 COMPLETED (Some ''2024-01-05T08:00:00''),
       sweep_row 2 PENDING (Some ''2024-01-05T08:00:00''),
       sweep_row 3 FAILED (Some ''2024-05-01T12:00:00''),
       sweep_row 4 CANCELLED None]"
    "execution_logs example_sweep_db =
      [sweep_log 1 ''2024-01-05T08:00:00'', sweep_log 2 ''2024-05-01T12:00:00'']"
    by (simp_all add: example_sweep_db_def)
  from th ok show ?thesis
    by (simp add: t st lg)
qed

subsection \<open>Save, load, save\<close>

lemma fold_max_ge: "(s::int) \<le> fold max ids s \<and> (\<forall>x \<in> set ids. x \<le> fold max ids s)"
proof (induction ids arbitrary: s)
  case Nil
  then show ?case by simp
next
  case (Cons a ids)
  from Cons [of "max a s"] show ?case
    by auto
qed

lemma next_id_fresh: "r \<in> set rs \<Longrightarrow> r_id r \<noteq> next_id seq (map r_id rs)"
  using fold_max_ge [of seq "map r_id rs"] by (fastforce simp: next_id_def)

lemma find_fresh:
  assumes "\<And>r. r \<in> set rs \<Longrightarrow> r_id r \<noteq> i" and "r_id row = i"
  shows "find (\<lambda>r. r_id r = i) (rs @ [row]) = Some row"
  using assms by (induction rs) auto

lemma map_fresh:
  assumes "\<And>r. r \<in> set rs \<Longrightarrow> r_id r \<noteq> i" and "r_id row = i"
  shows "map (\<lambda>r. if r_id r = i then f r else r) (rs @ [row]) = rs @ [f row]"
  using assms by (induction rs) auto

text \<open>
  Saving a new task, loading the row and saving the loaded task: what the three calls
  return and store.
\<close>

lemma save_load_save:
  assumes new: "task_id task = None" and ok: "store_ok d"
    and s1: "save_task_to_db now task d = (i, t1, d1, e1)"
  shows "load_task_from_db i d1 = Some (task_of_row (insert_row i now task))
         \<and> tasks d1 = tasks d @ [insert_row i now task]
         \<and> save_task_to_db now (task_of_row (insert_row i now task)) d1
             = (i, task_of_row (insert_row i now task),
                d1 \<lparr> tasks := tasks d @
                       [update_row (task_of_row (insert_row i now task)) (insert_row i now task)] \<rparr>,
                [StoreTask (task_of_row (insert_row i now task))])"
proof -
  from s1 new ok have i: "i = next_id (tasks_seq d) (map r_id (tasks d))"
    and d1: "d1 = d \<lparr> tasks := tasks d @ [insert_row i now task], tasks_seq := i \<rparr>"
    by (auto simp: save_task_to_db_def Let_def)
  have fresh: "\<And>r. r \<in> set (tasks d) \<Longrightarrow> r_id r \<noteq> i"
    unfolding i by (rule next_id_fresh)
  have rid: "r_id (insert_row i now task) = i"
    by (simp add: insert_row_def)
  have l: "load_task_from_db i d1 = Some (task_of_row (insert_row i now task))"
    using ok by (simp add: load_task_from_db_def d1 find_fresh [OF fresh rid])
  have tid: "task_id (task_of_row (insert_row i now task)) = Some i"
    by (simp add: task_of_row_def insert_row_def)
  have s2: "save_task_to_db now (task_of_row (insert_row i now task)) d1
             = (i, task_of_row (insert_row i now task),
                d1 \<lparr> tasks := tasks d @
                       [update_row (task_of_row (insert_row i now task)) (insert_row i now task)] \<rparr>,
                [StoreTask (task_of_row (insert_row i now task))])"
    using ok tid
      map_fresh [OF fresh rid, where f = "update_row (task_of_row (insert_row i now task))"]
    by (simp add: save_task_to_db_def d1)
  from l s2 d1 show ?thesis
    by simp
qed

lemma flag_roundtrip: "(if (if b then 1 else (0::int)) \<noteq> 0 then 1 else (0::int)) = (if b then 1 else 0)"
  by simp

lemma int_or_0: "int_or (Some n) 0 = n"
  by (simp add: int_or_def)

lemma update_loaded_row:
  "update_row (task_of_row (insert_row i now task)) (insert_row i now task)
     = (insert_row i now task) \<lparr> r_max_retries := Some (int_or (Some (max_retries task)) 3) \<rparr>"
  unfolding update_row_def task_of_row_def insert_row_def
  by (simp add: flag_roundtrip int_or_0 del: if_split cong: if_cong)

text \<open>
  For a new task with a number of retries other than 0 the second save changes nothing
  in the database.
\<close>

lemma save_load_save_idempotent:
  assumes "task_id task = None" and "store_ok d" and "max_retries task \<noteq> 0"
    and "save_task_to_db now task d = (i, t1, d1, e1)"
    and "load_task_from_db i d1 = Some t2"
    and "save_task_to_db now t2 d1 = (j, t3, d2, e2)"
  shows "d2 = d1"
proof -
  note sls = save_load_save [OF assms(1,2,4)]
  from sls assms(5) have t2: "t2 = task_of_row (insert_row i now task)"
    by simp
  have "int_or (Some (max_retries task)) 3 = max_retries task"
    using assms(3) by (simp add: int_or_def)
  moreover have "(insert_row i now task) \<lparr> r_max_retries := Some (max_retries task) \<rparr>
                   = insert_row i now task"
    unfolding insert_row_def by simp
  ultimately have u: "update_row (task_of_row (insert_row i now task)) (insert_row i now task)
          = insert_row i now task"
    by (simp only: update_loaded_row)
  from sls have td: "tasks d @ [insert_row i now task] = tasks d1"
    by simp
  have same: "d1 \<lparr> tasks := tasks d @ [insert_row i now task] \<rparr> = d1"
    by (simp add: td)
  from sls assms(6) have "d2 = d1 \<lparr> tasks := tasks d @
      [update_row (task_of_row (insert_row i now task)) (insert_row i now task)] \<rparr>"
    by (auto simp: t2)
  then show ?thesis
    by (simp only: u same)
qed

text \<open>
  C8. For a new task with \<^verbatim>\<open>max_retries = 0\<close> the second save is not idempotent.
  The first save stores 0 in the column \<^verbatim>\<open>max_retries\<close>; the load reads the 0 as
  missing (\<^verbatim>\<open>row[17] if row[17] else 3\<close>) and returns a task with 3 retries; the second
  save stores 3.
\<close>

theorem save_load_save_changes_max_retries:
  assumes "task_id task = None" and "store_ok d" and "max_retries task = 0"
    and "save_task_to_db now task d = (i, t1, d1, e1)"
  shows "\<exists>t2 t3 d2 e2 rows row.
           load_task_from_db i d1 = Some t2 \<and> max_retries t2 = 3
           \<and> save_task_to_db now t2 d1 = (i, t3, d2, e2)
           \<and> tasks d1 = rows @ [row] \<and> r_id row = i \<and> r_max_retries row = Some 0
           \<and> tasks d2 = rows @ [row \<lparr> r_max_retries := Some 3 \<rparr>]
           \<and> tasks d2 \<noteq> tasks d1"
proof -
  note sls = save_load_save [OF assms(1,2,4)]
  let ?row = "insert_row i now task"
  let ?t2 = "task_of_row ?row"
  have u: "update_row ?t2 ?row = ?row \<lparr> r_max_retries := Some 3 \<rparr>"
    using assms(3) by (simp add: update_loaded_row int_or_def)
  have m: "max_retries ?t2 = 3" "r_id ?row = i" "r_max_retries ?row = Some 0"
    using assms(3) by (simp_all add: task_of_row_def insert_row_def int_or_def)
  have ne: "?row \<lparr> r_max_retries := Some 3 \<rparr> \<noteq> ?row"
  proof
    assume "?row \<lparr> r_max_retries := Some 3 \<rparr> = ?row"
    then have "r_max_retries (?row \<lparr> r_max_retries := Some 3 \<rparr>) = r_max_retries ?row"
      by simp
    with m(3) show False by simp
  qed
  define d2 where "d2 = d1 \<lparr> tasks := tasks d @ [?row \<lparr> r_max_retries := Some 3 \<rparr>] \<rparr>"
  have s2: "save_task_to_db now ?t2 d1 = (i, ?t2, d2, [StoreTask ?t2])"
    using sls u by (simp add: d2_def)
  have "tasks d2 = tasks d @ [?row \<lparr> r_max_retries := Some 3 \<rparr>]" "tasks d1 = tasks d @ [?row]"
    using sls by (simp_all add: d2_def)
  moreover from this ne have "tasks d2 \<noteq> tasks d1"
    by simp
  ultimately show ?thesis
    using sls s2 m by blast
qed

theorem save_load_save_changes_max_retries_witness:
  "task_id example_no_retry = None \<and> store_ok db_empty \<and> max_retries example_no_retry = 0
   \<and> save_task_to_db ''2024-05-01T11:59:00'' example_no_retry db_empty
       = (1, stored_task example_no_retry, stored_db example_no_retry, [StoreTask example_no_retry])
   \<and> map r_max_retries (tasks (stored_db example_no_retry)) = [Some 0]
   \<and> map_option max_retries (load_task_from_db 1 (stored_db example_no_retry)) = Some 3
   \<and> (\<exists>t2 t3 d2 e2. load_task_from_db 1 (stored_db example_no_retry) = Some t2
          \<and> save_task_to_db ''2024-05-01T11:59:00'' t2 (stored_db example_no_retry) = (1, t3, d2, e2)
          \<and> map r_max_retries (tasks d2) = [Some 3]
          \<and> tasks d2 \<noteq> tasks (stored_db example_no_retry))"
proof -
  have f: "task_id example_no_retry = None" "store_ok db_empty" "max_retries example_no_retry = 0"
    by (simp_all add: example_no_retry_def example_task_def Task_default_def db_empty_def)
  note s = save_new_task [OF f(1)]
  note th = save_load_save_changes_max_retries [OF f s]
  have t: "tasks (stored_db example_no_retry)
             = [insert_row 1 ''2024-05-01T11:59:00'' example_no_retry]"
    by (simp add: stored_db_def)
  from th obtain t2 t3 d2 e2 rows row where
    x: "load_task_from_db 1 (stored_db example_no_retry) = Some t2" "max_retries t2 = 3"
      "save_task_to_db ''2024-05-01T11:59:00'' t2 (stored_db example_no_retry) = (1, t3, d2, e2)"
      "tasks (stored_db example_no_retry) = rows @ [row]" "r_max_retries row = Some 0"
      "tasks d2 = rows @ [row \<lparr> r_max_retries := Some 3 \<rparr>]"
      "tasks d2 \<noteq> tasks (stored_db example_no_retry)"
    by blast
  from x(4) t have "rows = []"
    by simp
  with x(4,5,6) have m: "map r_max_retries (tasks (stored_db example_no_retry)) = [Some 0]"
    "map r_max_retries (tasks d2) = [Some 3]"
    by simp_all
  have a: "map_option max_retries (load_task_from_db 1 (stored_db example_no_retry)) = Some 3"
    using x(1,2) by simp
  have e: "\<exists>t2 t3 d2 e2. load_task_from_db 1 (stored_db example_no_retry) = Some t2
          \<and> save_task_to_db ''2024-05-01T11:59:00'' t2 (stored_db example_no_retry) = (1, t3, d2, e2)
          \<and> map r_max_retries (tasks d2) = [Some 3]
          \<and> tasks d2 \<noteq> tasks (stored_db example_no_retry)"
  proof (intro exI conjI)
    show "load_task_from_db 1 (stored_db example_no_retry) = Some t2"
      by (rule x(1))
    show "save_task_to_db ''2024-05-01T11:59:00'' t2 (stored_db example_no_retry) = (1, t3, d2, e2)"
      by (rule x(3))
    show "map r_max_retries (tasks d2) = [Some 3]"
      by (rule m(2))
    show "tasks d2 \<noteq> tasks (stored_db example_no_retry)"
      by (rule x(7))
  qed
  show ?thesis
    by (intro conjI f s m(1) a e)
qed

subsection \<open>TIME triggers\<close>

lemma schedule_time_trigger_future:
  assumes "map_of (trigger_data task) ''datetime'' = Some (TStr text)"
    and "fromisoformat text = Some scheduled_time"
    and "now < scheduled_time"
  shows "schedule_time_trigger fromisoformat now task js
           = js @ [\<lparr> j_period = scheduled_time - now, j_next_run = scheduled_time, j_task = task \<rparr>]"
  using assms by (simp add: schedule_time_trigger_def every_do_def)

lemma run_pending_single:
  assumes "next_run \<le> t" and "f task s = Inr (task1, s1)"
  shows "run_pending f t [\<lparr> j_period = p, j_next_run = next_run, j_task = task \<rparr>] s
           = (None, [0], [\<lparr> j_period = p, j_next_run = t + p, j_task = task1 \<rparr>], s1)"
  using assms by (simp add: run_pending_def due_def)

text \<open>
  The registration of a TIME trigger in the future and that of an INTERVAL trigger in
  seconds are the same call: a job of the given period.
\<close>

lemma time_trigger_registers_periodic_job:
  assumes "map_of (trigger_data task) ''datetime'' = Some (TStr text)"
    and "fromisoformat text = Some scheduled_time"
    and "now < scheduled_time"
  shows "schedule_time_trigger fromisoformat now task js
           = every_do (scheduled_time - now) now task js"
  using assms by (simp add: schedule_time_trigger_def)

lemma interval_trigger_registers_periodic_job:
  assumes "map_of (trigger_data task) ''seconds'' = Some (TInt n)"
  shows "schedule_interval_trigger now task js = every_do (n * 1000000) now task js"
  using assms by (simp add: schedule_interval_trigger_def every_unit_do_def)

text \<open>
  C4. A TIME task whose timestamp is in the future is registered as a job of period
  \<open>delay = scheduled_time - now\<close>, the way an INTERVAL trigger is. The tick at or after
  the timestamp runs the job and re-arms it; every tick from \<open>delay\<close> later on runs it
  again. (\<open>f\<close> is the job function, here without exception.)
\<close>

theorem time_trigger_fires_again:
  assumes "map_of (trigger_data task) ''datetime'' = Some (TStr text)"
    and "fromisoformat text = Some scheduled_time"
    and "now < scheduled_time"
    and "scheduled_time \<le> t1"
    and "t1 + (scheduled_time - now) \<le> t2"
    and "f task s = Inr (task1, s1)"
    and "f task1 s1 = Inr (task2, s2)"
  shows "run_pending f t1 (schedule_time_trigger fromisoformat now task []) s
           = (None, [0],
              [\<lparr> j_period = scheduled_time - now, j_next_run = t1 + (scheduled_time - now),
                 j_task = task1 \<rparr>], s1)
         \<and> run_pending f t2
              [\<lparr> j_period = scheduled_time - now, j_next_run = t1 + (scheduled_time - now),
                 j_task = task1 \<rparr>] s1
           = (None, [0],
              [\<lparr> j_period = scheduled_time - now, j_next_run = t2 + (scheduled_time - now),
                 j_task = task2 \<rparr>], s2)"
proof -
  have reg: "schedule_time_trigger fromisoformat now task []
               = [\<lparr> j_period = scheduled_time - now, j_next_run = scheduled_time, j_task = task \<rparr>]"
    using assms(1-3) by (simp add: schedule_time_trigger_def every_do_def)
  show ?thesis
    unfolding reg
    using run_pending_single [where f = f and task = task and s = s, OF assms(4) assms(6)]
      run_pending_single [where f = f and task = task1 and s = s1, OF assms(5) assms(7)]
    by simp
qed

text \<open>
  The example environment runs \<^verbatim>\<open>echo ok\<close> for a stored, enabled COMMAND task and the
  process exits with 0.
\<close>

lemma execute_echo:
  assumes "enabled task" and "notify_on_completion task" and "task_type task = COMMAND"
    and "command task = ''echo''" and "arguments task = [''ok'']" and "working_dir task = []"
    and "task_id task = Some i" and "store_ok d"
  shows "\<exists>t' d'. execute_task config_default example_env task d
           = Inr (True, t', d',
                  [StoreTask (task \<lparr> status := RUNNING \<rparr>),
                   SubprocessRun (Argv [''echo'', ''ok'']) (Some ''/home/user''),
                   StoreTask t', Notify (Tarea_Completada (name task) 1)])
         \<and> store_ok d'
         \<and> t' = task \<lparr> status := COMPLETED, result_code := 0, output_text := ''ok'',
                        executed_at := ''2024-05-01T12:00:00'' \<rparr>"
proof -
  have chk: "check_command_security config_default (command task) = Inr True"
    using assms(4) by (simp add: check_defs)
  have s1: "save_task_to_db (now_iso example_env) (task \<lparr> status := RUNNING \<rparr>) d
     = (i, task \<lparr> status := RUNNING \<rparr>,
        d \<lparr> tasks := map (\<lambda>r. if r_id r = i then update_row (task \<lparr> status := RUNNING \<rparr>) r else r)
                      (tasks d) \<rparr>,
        [StoreTask (task \<lparr> status := RUNNING \<rparr>)])"
    (is "_ = (_, ?t1, ?d1, ?ev1)")
    using assms(7,8) by (simp add: save_task_to_db_def)
  have a: "attempt_task config_default example_env ?t1
     = ([SubprocessRun (Argv [''echo'', ''ok'']) (Some ''/home/user'')],
        Finished (?t1 \<lparr> result_code := 0, output_text := ''ok'' \<rparr>) True)"
    (is "_ = (?ev2, Finished ?t2 True)")
    using assms(3,4,5,6)
    by (simp add: attempt_task_def of_run_def full_cmd_def example_env_def)
  define t3 where "t3 = ?t2 \<lparr> status := (if True then COMPLETED else FAILED),
                               executed_at := now_iso example_env \<rparr>"
  have s2: "save_task_to_db (now_iso example_env) t3 ?d1
     = (i, t3,
        ?d1 \<lparr> tasks := map (\<lambda>r. if r_id r = i then update_row t3 r else r) (tasks ?d1) \<rparr>,
        [StoreTask t3])"
    (is "_ = (_, _, ?d2, _)")
    using assms(7,8) by (simp add: save_task_to_db_def t3_def)
  note ex = execute_task_finished [OF assms(1) chk s1 a s2 [unfolded t3_def]]
  have t3': "t3 = task \<lparr> status := COMPLETED, result_code := 0, output_text := ''ok'',
                        executed_at := ''2024-05-01T12:00:00'' \<rparr>"
    by (simp add: t3_def example_env_def)
  have n: "notify_on_completion t3" "name t3 = name task"
    using assms(2) by (simp_all add: t3_def)
  have dur: "end_time example_env - start_time example_env = 1"
    by (simp add: example_env_def)
  have ok': "store_ok (log_execution (task_id t3) (executed_at t3) 1 (result_code t3)
                         (take 1000 (output_text t3)) ?d2)"
    using assms(8) by (simp add: log_execution_def Let_def split: option.splits)
  from ex [folded t3_def] n dur ok' t3' show ?thesis
    by (simp add: send_notification_def config_default_def)
qed

lemma job_function_echo:
  assumes "enabled task" and "notify_on_completion task" and "task_type task = COMMAND"
    and "command task = ''echo''" and "arguments task = [''ok'']" and "working_dir task = []"
    and "task_id task = Some i" and "store_ok d"
  shows "\<exists>d'. job_function config_default example_envs task (d, evs)
           = Inr (task \<lparr> status := COMPLETED, result_code := 0, output_text := ''ok'',
                         executed_at := ''2024-05-01T12:00:00'' \<rparr>,
                  d',
                  evs @
                  [StoreTask (task \<lparr> status := RUNNING \<rparr>),
                   SubprocessRun (Argv [''echo'', ''ok'']) (Some ''/home/user''),
                   StoreTask (task \<lparr> status := COMPLETED, result_code := 0, output_text := ''ok'',
                                     executed_at := ''2024-05-01T12:00:00'' \<rparr>),
                   Notify (Tarea_Completada (name task) 1)])
         \<and> store_ok d'"
proof -
  from execute_echo [OF assms] obtain t' d' where
    "execute_task config_default example_env task d
       = Inr (True, t', d',
              [StoreTask (task \<lparr> status := RUNNING \<rparr>),
               SubprocessRun (Argv [''echo'', ''ok'']) (Some ''/home/user''),
               StoreTask t', Notify (Tarea_Completada (name task) 1)])"
    "store_ok d'"
    "t' = task \<lparr> status := COMPLETED, result_code := 0, output_text := ''ok'',
                  executed_at := ''2024-05-01T12:00:00'' \<rparr>"
    by blast
  then show ?thesis
    by (simp add: job_function_def example_envs_def)
qed

lemma stored_time_task_facts:
  "enabled (stored_task example_time_task)" "notify_on_completion (stored_task example_time_task)"
  "task_type (stored_task example_time_task) = COMMAND"
  "command (stored_task example_time_task) = ''echo''"
  "arguments (stored_task example_time_task) = [''ok'']"
  "working_dir (stored_task example_time_task) = []"
  "task_id (stored_task example_time_task) = Some 1"
  "map_of (trigger_data (stored_task example_time_task)) ''datetime''
     = Some (TStr ''2024-05-01T12:00:00'')"
  by (simp_all add: stored_task_def example_time_task_def example_task_def Task_default_def)

theorem time_trigger_fires_again_witness:
  "map_of (trigger_data (stored_task example_time_task)) ''datetime''
     = Some (TStr ''2024-05-01T12:00:00'')
   \<and> example_fromisoformat ''2024-05-01T12:00:00'' = Some 60000000
   \<and> (0::int) < 60000000 \<and> (60000000::int) \<le> 60000000
   \<and> (60000000::int) + (60000000 - 0) \<le> 120000000
   \<and> (\<exists>js1 s1 js2 s2.
         tick config_default example_envs 60000000
           (schedule_time_trigger example_fromisoformat 0 (stored_task example_time_task) [])
           (stored_db example_time_task, [])
         = (None, [0], js1, s1)
       \<and> tick config_default example_envs 120000000 js1 s1 = (None, [0], js2, s2)
       \<and> length (filter is_subprocess (snd s2)) = 2)"
proof -
  let ?T = "stored_task example_time_task"
  let ?f = "job_function config_default example_envs"
  note F = stored_time_task_facts
  have ok: "store_ok (stored_db example_time_task)"
    by (simp add: stored_db_def)
  define task1 where "task1 = ?T \<lparr> status := COMPLETED, result_code := 0, output_text := ''ok'',
                                  executed_at := ''2024-05-01T12:00:00'' \<rparr>"
  define task2 where "task2 = task1 \<lparr> status := COMPLETED, result_code := 0, output_text := ''ok'',
                                  executed_at := ''2024-05-01T12:00:00'' \<rparr>"
  define ev1 where "ev1 =
     [StoreTask (?T \<lparr> status := RUNNING \<rparr>),
      SubprocessRun (Argv [''echo'', ''ok'']) (Some ''/home/user''),
      StoreTask task1, Notify (Tarea_Completada (name ?T) 1)]"
  define ev2 where "ev2 = ev1 @
     [StoreTask (task1 \<lparr> status := RUNNING \<rparr>),
      SubprocessRun (Argv [''echo'', ''ok'']) (Some ''/home/user''),
      StoreTask task2, Notify (Tarea_Completada (name task1) 1)]"
  from job_function_echo [OF F(1-7) ok, of "[]"] obtain d1 where
    r1: "?f ?T (stored_db example_time_task, []) = Inr (task1, (d1, ev1))" and ok1: "store_ok d1"
    unfolding task1_def ev1_def by auto
  have F1: "enabled task1" "notify_on_completion task1" "task_type task1 = COMMAND"
    "command task1 = ''echo''" "arguments task1 = [''ok'']" "working_dir task1 = []"
    "task_id task1 = Some 1"
    using F(1-7) by (simp_all add: task1_def)
  from job_function_echo [OF F1 ok1, of ev1] obtain d2 where
    r2: "?f task1 (d1, ev1) = Inr (task2, (d2, ev2))"
    unfolding task2_def ev2_def by auto
  have p: "example_fromisoformat ''2024-05-01T12:00:00'' = Some 60000000"
    by (simp add: example_fromisoformat_def)
  have le: "(0::int) < 60000000" "(60000000::int) \<le> 60000000"
    "(60000000::int) + (60000000 - 0) \<le> 120000000"
    by simp_all
  note th = time_trigger_fires_again [where f = ?f and fromisoformat = example_fromisoformat,
      OF F(8) p le r1 r2]
  have n: "length (filter is_subprocess (snd (d2, ev2))) = 2"
    by (simp add: ev2_def ev1_def is_subprocess_def)
  have "\<exists>js1 s1 js2 s2.
         tick config_default example_envs 60000000
           (schedule_time_trigger example_fromisoformat 0 ?T [])
           (stored_db example_time_task, [])
         = (None, [0], js1, s1)
       \<and> tick config_default example_envs 120000000 js1 s1 = (None, [0], js2, s2)
       \<and> length (filter is_subprocess (snd s2)) = 2"
  proof (intro exI conjI)
    show "tick config_default example_envs 60000000
           (schedule_time_trigger example_fromisoformat 0 ?T [])
           (stored_db example_time_task, [])
         = (None, [0],
            [\<lparr> j_period = 60000000 - 0, j_next_run = 60000000 + (60000000 - 0), j_task = task1 \<rparr>],
            (d1, ev1))"
      unfolding tick_def using th by (rule conjunct1)
    show "tick config_default example_envs 120000000
            [\<lparr> j_period = 60000000 - 0, j_next_run = 60000000 + (60000000 - 0), j_task = task1 \<rparr>]
            (d1, ev1)
          = (None, [0],
             [\<lparr> j_period = 60000000 - 0, j_next_run = 120000000 + (60000000 - 0), j_task = task2 \<rparr>],
             (d2, ev2))"
      unfolding tick_def using th by (rule conjunct2)
    show "length (filter is_subprocess (snd (d2, ev2))) = 2"
      by (rule n)
  qed
  with F(8) p le show ?thesis
    by (intro conjI)
qed

subsection \<open>A TIME trigger in the past\<close>

lemma schedule_time_trigger_past:
  assumes "map_of (trigger_data task) ''datetime'' = Some (TStr text)"
    and "fromisoformat text = Some scheduled_time"
    and "scheduled_time \<le> now"
  shows "schedule_time_trigger fromisoformat now task js = js"
  using assms by (simp add: schedule_time_trigger_def)

text \<open>
  C9, as the claim states it, fails: the example task for 11:00:00, registered at
  11:59:00 with an empty registry, is stored, the registry stays empty, and the tick one
  minute later runs no job and leaves the database and the events as they were.
\<close>

theorem past_time_trigger_counterexample:
  "schedule_task example_fromisoformat ''2024-05-01T11:59:00'' 0 example_past_task db_empty []
     = (True, stored_task example_past_task, stored_db example_past_task, [],
        [StoreTask example_past_task])
   \<and> tick config_default example_envs 60000000 [] (stored_db example_past_task, [])
     = (None, [], [], (stored_db example_past_task, []))"
proof -
  have new: "task_id example_past_task = None"
    by (simp add: example_past_task_def example_task_def Task_default_def)
  have "schedule_time_trigger example_fromisoformat 0 (stored_task example_past_task) [] = []"
    by (simp add: schedule_time_trigger_def stored_task_def example_past_task_def
          example_fromisoformat_def)
  moreover have "trigger_type (stored_task example_past_task) = TIME"
    by (simp add: stored_task_def example_past_task_def)
  moreover have "stored_task example_past_task \<lparr> task_id := Some 1 \<rparr> = stored_task example_past_task"
    by (simp add: stored_task_def)
  ultimately have "schedule_task example_fromisoformat ''2024-05-01T11:59:00'' 0 example_past_task
      db_empty []
     = (True, stored_task example_past_task, stored_db example_past_task, [],
        [StoreTask example_past_task])"
    by (simp add: schedule_task_def save_new_task [OF new])
  moreover have "tick config_default example_envs 60000000 [] (stored_db example_past_task, [])
     = (None, [], [], (stored_db example_past_task, []))"
    by (simp add: tick_def run_pending_def due_def)
  ultimately show ?thesis
    by (rule conjI)
qed

text \<open>
  C9, amended. For every TIME task whose timestamp is not later than the clock at
  registration, \<^verbatim>\<open>_schedule_time_trigger\<close> registers nothing: the registry is as it
  was, also through \<^verbatim>\<open>schedule_task\<close>, so every later tick does what it would have
  done without the registration, and the task is not fired by the scheduler.
\<close>

theorem past_time_trigger_not_registered:
  assumes "map_of (trigger_data task) ''datetime'' = Some (TStr text)"
    and "fromisoformat text = Some scheduled_time"
    and "scheduled_time \<le> now"
  shows "schedule_time_trigger fromisoformat now task js = js
         \<and> tick cfg envs later (schedule_time_trigger fromisoformat now task js) s
             = tick cfg envs later js s
         \<and> (trigger_type task = TIME \<longrightarrow>
              (case schedule_task fromisoformat now_text now task d js of
                 (ok, t, d', js', ev) \<Rightarrow> js' = js))"
proof -
  have a: "schedule_time_trigger fromisoformat now task js = js"
    using assms by (simp add: schedule_time_trigger_def)
  obtain i task1 d1 ev where s: "save_task_to_db now_text task d = (i, task1, d1, ev)"
    by (metis prod_cases4)
  have "trigger_data (task1 \<lparr> task_id := Some i \<rparr>) = trigger_data task"
    "trigger_type (task1 \<lparr> task_id := Some i \<rparr>) = trigger_type task"
    using save_task_to_db_task [OF s] by auto
  then have b: "trigger_type task = TIME \<longrightarrow>
      (case schedule_task fromisoformat now_text now task d js of
         (ok, t, d', js', ev) \<Rightarrow> js' = js)"
    using assms s by (simp add: schedule_task_def schedule_time_trigger_def)
  from a b show ?thesis
    by simp
qed

theorem past_time_trigger_not_registered_witness:
  "map_of (trigger_data example_past_task) ''datetime'' = Some (TStr ''2024-05-01T11:00:00'')
   \<and> example_fromisoformat ''2024-05-01T11:00:00'' = Some (- 3540000000)
   \<and> (- 3540000000 :: int) \<le> 0
   \<and> trigger_type example_past_task = TIME
   \<and> schedule_time_trigger example_fromisoformat 0 example_past_task [] = []
   \<and> (case schedule_task example_fromisoformat ''2024-05-01T11:59:00'' 0 example_past_task
              db_empty [] of
         (ok, t, d', js', ev) \<Rightarrow> js' = [])"
proof -
  have f: "map_of (trigger_data example_past_task) ''datetime'' = Some (TStr ''2024-05-01T11:00:00'')"
    "example_fromisoformat ''2024-05-01T11:00:00'' = Some (- 3540000000)"
    "(- 3540000000 :: int) \<le> 0"
    by (simp_all add: example_past_task_def example_fromisoformat_def)
  have t: "trigger_type example_past_task = TIME"
    by (simp add: example_past_task_def)
  note th = past_time_trigger_not_registered [where fromisoformat = example_fromisoformat
      and js = "[]" and d = db_empty and now_text = "''2024-05-01T11:59:00''", OF f]
  from th t f show ?thesis
    by simp
qed

end
